theory Spec2Isabelle
  imports Complex_Main
begin

section \<open>The incremental trajectory optimizer of gpmp2 (ISAM2TrajOptimizer-inl.h)\<close>

text \<open>
  The class template \<^verbatim>\<open>ISAM2TrajOptimizer<ROBOT, GP, SDF, OBS_FACTOR, OBS_FACTOR_GP>\<close>
  keeps a buffer of factors that are not yet handed to the iSAM2 solver
  (\<^verbatim>\<open>inc_graph_\<close>), a buffer of initial values (\<^verbatim>\<open>init_values_\<close>), a list of
  solver-side factor indices to remove (\<^verbatim>\<open>removed_factor_index_\<close>), the last
  estimate (\<^verbatim>\<open>opt_values_\<close>) and the two cached indices of the goal factors.

  The template parameters are type variables here:
  \<^item> \<open>'p\<close> is \<^verbatim>\<open>ROBOT::Pose\<close>, \<open>'v\<close> is \<^verbatim>\<open>ROBOT::Velocity\<close>,
  \<^item> \<open>'r\<close> is \<^verbatim>\<open>ROBOT\<close>, \<open>'s\<close> is \<^verbatim>\<open>SDF\<close>,
  \<^item> \<open>'m\<close> is the noise model type (\<^verbatim>\<open>gtsam::SharedNoiseModel\<close>),
  \<^item> \<open>'i\<close> is the state of the solver object \<^verbatim>\<open>gtsam::ISAM2\<close>, \<open>'e\<close> the failures
    the solver can report.

  Member names lose their trailing underscore (\<^verbatim>\<open>inc_graph_\<close> is \<open>inc_graph\<close>), which
  Isabelle does not accept in a name. Values of type \<^verbatim>\<open>size_t\<close> (step counts, step
  indices, factor indices, container sizes) are natural numbers, without the bound of 64
  bits. The sums the code computes on them are sizes of containers held in memory, plus the
  size of the solver's store, and stay below the bound; the one subtraction
  (\<^verbatim>\<open>size() - 1\<close>) is always taken right after an element was added, so it never goes
  below 0. The loop counters are compared and incremented only; a step count of
  \<open>2\<^sup>6\<^sup>4 - 1\<close>, for which the counter of the outer loop would wrap around, is a build of
  more factors than can be addressed and is left out. Values of type \<^verbatim>\<open>double\<close> are real
  numbers: the rounding of the floating point operations is not modelled, and nothing
  proved below depends on the value of a \<^verbatim>\<open>double\<close>.
\<close>

subsection \<open>Keys, factors, values\<close>

text \<open>
  \<^verbatim>\<open>gtsam::Symbol(c, j)\<close>: a key made of a character and an index. The bit encoding the
  library gives it is not part of the source; two symbols are equal exactly when both their
  parts are.
\<close>

datatype key = Symbol char nat

type_synonym double = real

text \<open>
  The factors the source constructs, one constructor per factor class, with the constructor
  arguments in the order of the source: \<^verbatim>\<open>PriorFactor<Pose>\<close>, \<^verbatim>\<open>PriorFactor<Velocity>\<close>,
  \<^verbatim>\<open>OBS_FACTOR\<close>, \<^verbatim>\<open>OBS_FACTOR_GP\<close> and \<^verbatim>\<open>GP\<close>.
\<close>

datatype ('p, 'v, 'm, 'r, 's) factor =
    PriorFactorPose key 'p 'm
  | PriorFactorVelocity key 'v 'm
  | OBS_FACTOR key 'r 's double double
  | OBS_FACTOR_GP key key key key 'r 's double double 'm double double
  | GP key key key key double 'm

text \<open>\<^verbatim>\<open>gtsam::Values\<close>: a finite mapping from keys to poses and velocities.\<close>

type_synonym ('p, 'v) Values = "key \<rightharpoonup> 'p + 'v"

subsection \<open>The setting\<close>

text \<open>
  Modelled from the spec: the struct \<^verbatim>\<open>TrajOptimizerSetting\<close> is declared in a header that is
  not part of the source at hand. These are the members the source reads, with the types of
  the spec's configuration surface (total step count, total trajectory duration, obstacle
  sub-sample count, prior noise models for position and velocity, smoothness covariance,
  cost sigma, cost epsilon).
\<close>

record 'm TrajOptimizerSetting =
  total_step :: nat
  total_time :: double
  obs_check_inter :: nat
  conf_prior_model :: 'm
  vel_prior_model :: 'm
  Qc_model :: 'm
  cost_sigma :: double
  epsilon :: double

subsection \<open>The solver boundary\<close>

text \<open>
  The solver \<^verbatim>\<open>gtsam::ISAM2\<close> is an external library. The source calls three of its
  members, which are parameters of the model: \<^verbatim>\<open>isam_.update(graph, values, indices)\<close>,
  which changes the solver object or throws (\<open>Inl\<close>), \<^verbatim>\<open>isam_.getFactorsUnsafe().size()\<close>
  and \<^verbatim>\<open>isam_.calculateEstimate()\<close>.
\<close>

record ('p, 'v, 'm, 'r, 's, 'i, 'e) ISAM2 =
  ISAM2_update :: "'i \<Rightarrow> ('p, 'v, 'm, 'r, 's) factor list \<Rightarrow> ('p, 'v) Values \<Rightarrow> nat list \<Rightarrow> 'e + 'i"
  getFactorsUnsafe_size :: "'i \<Rightarrow> nat"
  calculateEstimate :: "'i \<Rightarrow> ('p, 'v) Values"

subsection \<open>The optimizer object\<close>

record ('p, 'v, 'm, 'r, 's, 'i) ISAM2TrajOptimizer =
  setting :: "'m TrajOptimizerSetting"
  arm :: 'r
  sdf :: 's
  isam :: 'i
  inc_graph :: "('p, 'v, 'm, 'r, 's) factor list"
  init_values :: "('p, 'v) Values"
  removed_factor_index :: "nat list"
  opt_values :: "('p, 'v) Values"
  goal_conf_factor_idx :: nat
  goal_vel_factor_idx :: nat

text \<open>
  The constructor. \<open>isam0\<close> stands for the solver object that
  \<^verbatim>\<open>gtsam::ISAM2(gtsam::ISAM2Params(gtsam::ISAM2GaussNewtonParams(), 1e-3, 1))\<close> builds; the
  containers are default-constructed, hence empty; both cached indices start at 0.
\<close>

definition new_ISAM2TrajOptimizer ::
  "'r \<Rightarrow> 's \<Rightarrow> 'm TrajOptimizerSetting \<Rightarrow> 'i \<Rightarrow> ('p, 'v, 'm, 'r, 's, 'i) ISAM2TrajOptimizer" where
  "new_ISAM2TrajOptimizer arm0 sdf0 setting0 isam0 =
     \<lparr>setting = setting0, arm = arm0, sdf = sdf0, isam = isam0,
      inc_graph = [], init_values = Map.empty, removed_factor_index = [],
      opt_values = Map.empty, goal_conf_factor_idx = 0, goal_vel_factor_idx = 0\<rparr>"

text \<open>\<^verbatim>\<open>inc_graph_.add(f)\<close>: the factor goes to the end of the buffer.\<close>

definition inc_graph_add ::
  "('p, 'v, 'm, 'r, 's) factor \<Rightarrow> ('p, 'v, 'm, 'r, 's, 'i) ISAM2TrajOptimizer
     \<Rightarrow> ('p, 'v, 'm, 'r, 's, 'i) ISAM2TrajOptimizer" where
  "inc_graph_add f s = s\<lparr>inc_graph := inc_graph s @ [f]\<rparr>"

subsection \<open>initFactorGraph\<close>

text \<open>
  The inner loop \<^verbatim>\<open>for (size_t j = 1; j <= setting_.obs_check_inter; j++)\<close>, entered at
  \<open>j\<close>: one interpolated obstacle factor per \<open>j\<close>, with \<^verbatim>\<open>tau = inter_dt * j\<close>.
\<close>

function interp_loop ::
  "key \<Rightarrow> key \<Rightarrow> key \<Rightarrow> key \<Rightarrow> double \<Rightarrow> double \<Rightarrow> nat
     \<Rightarrow> ('p, 'v, 'm, 'r, 's, 'i) ISAM2TrajOptimizer \<Rightarrow> ('p, 'v, 'm, 'r, 's, 'i) ISAM2TrajOptimizer" where
  "interp_loop last_pose_key last_vel_key pose_key vel_key delta_t inter_dt j s =
     (if j \<le> obs_check_inter (setting s) then
        (let tau = inter_dt * real j
         in interp_loop last_pose_key last_vel_key pose_key vel_key delta_t inter_dt (j + 1)
              (inc_graph_add
                 (OBS_FACTOR_GP last_pose_key last_vel_key pose_key vel_key (arm s) (sdf s)
                    (cost_sigma (setting s)) (epsilon (setting s)) (Qc_model (setting s))
                    delta_t tau) s))
      else s)"
  by pat_completeness auto
termination
  by (relation "measure (\<lambda>(lpk, lvk, pk, vk, dt, idt, j, s). Suc (obs_check_inter (setting s)) - j)")
     (auto simp: inc_graph_add_def)

declare interp_loop.simps [simp del]

text \<open>The body of the outer loop at step \<open>i\<close>, statement by statement.\<close>

definition build_step ::
  "'p \<Rightarrow> 'v \<Rightarrow> 'p \<Rightarrow> 'v \<Rightarrow> double \<Rightarrow> double \<Rightarrow> nat
     \<Rightarrow> ('p, 'v, 'm, 'r, 's, 'i) ISAM2TrajOptimizer \<Rightarrow> ('p, 'v, 'm, 'r, 's, 'i) ISAM2TrajOptimizer" where
  "build_step start_conf start_vel goal_conf goal_vel delta_t inter_dt i s =
     (let pose_key = Symbol CHR ''x'' i;
          vel_key = Symbol CHR ''v'' i;
          s1 = (if i = 0 then
                  (let a = inc_graph_add (PriorFactorPose pose_key start_conf (conf_prior_model (setting s))) s
                   in inc_graph_add (PriorFactorVelocity vel_key start_vel (vel_prior_model (setting a))) a)
                else if i = total_step (setting s) then
                  (let a = inc_graph_add (PriorFactorPose pose_key goal_conf (conf_prior_model (setting s))) s;
                       b = a\<lparr>goal_conf_factor_idx := length (inc_graph a) - 1\<rparr>;
                       c = inc_graph_add (PriorFactorVelocity vel_key goal_vel (vel_prior_model (setting b))) b
                   in c\<lparr>goal_vel_factor_idx := length (inc_graph c) - 1\<rparr>)
                else s);
          s2 = inc_graph_add
                 (OBS_FACTOR pose_key (arm s1) (sdf s1) (cost_sigma (setting s1)) (epsilon (setting s1))) s1
      in if 0 < i then
           (let last_pose_key = Symbol CHR ''x'' (i - 1);
                last_vel_key = Symbol CHR ''v'' (i - 1);
                s3 = (if 0 < obs_check_inter (setting s2)
                      then interp_loop last_pose_key last_vel_key pose_key vel_key delta_t inter_dt 1 s2
                      else s2)
            in inc_graph_add
                 (GP last_pose_key last_vel_key pose_key vel_key delta_t (Qc_model (setting s3))) s3)
         else s2)"

text \<open>
  The outer loop \<^verbatim>\<open>for (size_t i = 0; i <= setting_.total_step; i++)\<close>, entered at \<open>i\<close>.
\<close>

function build_loop ::
  "'p \<Rightarrow> 'v \<Rightarrow> 'p \<Rightarrow> 'v \<Rightarrow> double \<Rightarrow> double \<Rightarrow> nat
     \<Rightarrow> ('p, 'v, 'm, 'r, 's, 'i) ISAM2TrajOptimizer \<Rightarrow> ('p, 'v, 'm, 'r, 's, 'i) ISAM2TrajOptimizer" where
  "build_loop start_conf start_vel goal_conf goal_vel delta_t inter_dt i s =
     (if i \<le> total_step (setting s) then
        build_loop start_conf start_vel goal_conf goal_vel delta_t inter_dt (i + 1)
          (build_step start_conf start_vel goal_conf goal_vel delta_t inter_dt i s)
      else s)"
  by pat_completeness auto
termination
proof -
  have interp: "setting (interp_loop a b c d dt idt j s) = setting s"
    for a b c d dt idt j and s :: "('p, 'v, 'm, 'r, 's, 'i) ISAM2TrajOptimizer"
  proof (induction a b c d dt idt j s rule: interp_loop.induct)
    case (1 a b c d dt idt j s)
    show ?case
    proof (cases "j \<le> obs_check_inter (setting s)")
      case True
      from 1 [OF True refl] True show ?thesis
        by (subst interp_loop.simps) (simp add: inc_graph_add_def)
    next
      case False
      then show ?thesis
        by (subst interp_loop.simps) simp
    qed
  qed
  have step: "setting (build_step sc sv gc gv dt idt i s) = setting s"
    for sc sv gc gv dt idt i and s :: "('p, 'v, 'm, 'r, 's, 'i) ISAM2TrajOptimizer"
    by (simp add: build_step_def Let_def interp inc_graph_add_def)
  show ?thesis
    by (relation "measure (\<lambda>(sc, sv, gc, gv, dt, idt, i, s). Suc (total_step (setting s)) - i)")
       (auto simp: step)
qed

declare build_loop.simps [simp del]

text \<open>
  \<^verbatim>\<open>initFactorGraph\<close>: the two interpolation constants, then the loop from \<open>i = 0\<close>. The
  division is the one of the reals; for a step count of 0 the source divides a \<^verbatim>\<open>double\<close> by
  zero (which raises nothing) and the loop never reads the result.
\<close>

definition initFactorGraph ::
  "'p \<Rightarrow> 'v \<Rightarrow> 'p \<Rightarrow> 'v
     \<Rightarrow> ('p, 'v, 'm, 'r, 's, 'i) ISAM2TrajOptimizer \<Rightarrow> ('p, 'v, 'm, 'r, 's, 'i) ISAM2TrajOptimizer" where
  "initFactorGraph start_conf start_vel goal_conf goal_vel s =
     (let delta_t = total_time (setting s) / real (total_step (setting s));
          inter_dt = delta_t / real (obs_check_inter (setting s) + 1)
      in build_loop start_conf start_vel goal_conf goal_vel delta_t inter_dt 0 s)"

subsection \<open>initValues, update, changeGoalConfigAndVel, fixConfigAndVel\<close>

definition initValues ::
  "('p, 'v) Values \<Rightarrow> ('p, 'v, 'm, 'r, 's, 'i) ISAM2TrajOptimizer
     \<Rightarrow> ('p, 'v, 'm, 'r, 's, 'i) ISAM2TrajOptimizer" where
  "initValues vals s = s\<lparr>init_values := vals\<rparr>"

text \<open>
  \<^verbatim>\<open>update\<close>: the three buffers go to the solver in one call. When the solver throws, the
  exception leaves \<^verbatim>\<open>update\<close> at once (\<open>Inl\<close>); otherwise the estimate is read back and the
  buffers are emptied.
\<close>

definition update ::
  "('p, 'v, 'm, 'r, 's, 'i, 'e) ISAM2 \<Rightarrow> ('p, 'v, 'm, 'r, 's, 'i) ISAM2TrajOptimizer
     \<Rightarrow> 'e + ('p, 'v, 'm, 'r, 's, 'i) ISAM2TrajOptimizer" where
  "update solver s =
     (case ISAM2_update solver (isam s) (inc_graph s) (init_values s) (removed_factor_index s) of
        Inl e \<Rightarrow> Inl e
      | Inr isam' \<Rightarrow>
          (let s1 = s\<lparr>isam := isam'\<rparr>;
               s2 = s1\<lparr>opt_values := calculateEstimate solver (isam s1)\<rparr>;
               s3 = s2\<lparr>init_values := Map.empty\<rparr>;
               s4 = s3\<lparr>inc_graph := []\<rparr>
           in Inr (s4\<lparr>removed_factor_index := []\<rparr>)))"

definition changeGoalConfigAndVel ::
  "('p, 'v, 'm, 'r, 's, 'i, 'e) ISAM2 \<Rightarrow> 'p \<Rightarrow> 'v
     \<Rightarrow> ('p, 'v, 'm, 'r, 's, 'i) ISAM2TrajOptimizer \<Rightarrow> ('p, 'v, 'm, 'r, 's, 'i) ISAM2TrajOptimizer" where
  "changeGoalConfigAndVel solver goal_conf goal_vel s =
     (let s1 = s\<lparr>removed_factor_index := removed_factor_index s @ [goal_conf_factor_idx s]\<rparr>;
          s2 = s1\<lparr>removed_factor_index := removed_factor_index s1 @ [goal_vel_factor_idx s1]\<rparr>;
          s3 = inc_graph_add
                 (PriorFactorPose (Symbol CHR ''x'' (total_step (setting s2))) goal_conf
                    (conf_prior_model (setting s2))) s2;
          s4 = s3\<lparr>goal_conf_factor_idx :=
                    getFactorsUnsafe_size solver (isam s3) + length (inc_graph s3) - 1\<rparr>;
          s5 = inc_graph_add
                 (PriorFactorVelocity (Symbol CHR ''v'' (total_step (setting s4))) goal_vel
                    (vel_prior_model (setting s4))) s4
      in s5\<lparr>goal_vel_factor_idx :=
                getFactorsUnsafe_size solver (isam s5) + length (inc_graph s5) - 1\<rparr>)"

definition fixConfigAndVel ::
  "nat \<Rightarrow> 'p \<Rightarrow> 'v
     \<Rightarrow> ('p, 'v, 'm, 'r, 's, 'i) ISAM2TrajOptimizer \<Rightarrow> ('p, 'v, 'm, 'r, 's, 'i) ISAM2TrajOptimizer" where
  "fixConfigAndVel state_idx conf_fix vel_fix s =
     (let s1 = inc_graph_add
                 (PriorFactorPose (Symbol CHR ''x'' state_idx) conf_fix (conf_prior_model (setting s))) s
      in inc_graph_add
           (PriorFactorVelocity (Symbol CHR ''v'' state_idx) vel_fix (vel_prior_model (setting s1))) s1)"

subsection \<open>Sequences of calls\<close>

text \<open>
  What a client does with an optimizer after the factor graph is built: any sequence of calls
  of the four members. A call of \<^verbatim>\<open>update\<close> in which the solver throws ends the sequence,
  the exception being the client's to handle.
\<close>

datatype ('p, 'v) call =
    InitValues "('p, 'v) Values"
  | Update
  | ChangeGoalConfigAndVel 'p 'v
  | FixConfigAndVel nat 'p 'v

fun call_step ::
  "('p, 'v, 'm, 'r, 's, 'i, 'e) ISAM2 \<Rightarrow> ('p, 'v) call
     \<Rightarrow> ('p, 'v, 'm, 'r, 's, 'i) ISAM2TrajOptimizer \<Rightarrow> 'e + ('p, 'v, 'm, 'r, 's, 'i) ISAM2TrajOptimizer" where
  "call_step solver (InitValues vals) s = Inr (initValues vals s)"
| "call_step solver Update s = update solver s"
| "call_step solver (ChangeGoalConfigAndVel goal_conf goal_vel) s =
     Inr (changeGoalConfigAndVel solver goal_conf goal_vel s)"
| "call_step solver (FixConfigAndVel state_idx conf_fix vel_fix) s =
     Inr (fixConfigAndVel state_idx conf_fix vel_fix s)"

fun run ::
  "('p, 'v, 'm, 'r, 's, 'i, 'e) ISAM2 \<Rightarrow> ('p, 'v) call list
     \<Rightarrow> ('p, 'v, 'm, 'r, 's, 'i) ISAM2TrajOptimizer \<Rightarrow> 'e + ('p, 'v, 'm, 'r, 's, 'i) ISAM2TrajOptimizer" where
  "run solver [] s = Inr s"
| "run solver (c # cs) s =
     (case call_step solver c s of Inl e \<Rightarrow> Inl e | Inr s' \<Rightarrow> run solver cs s')"

text \<open>
  The log of the goal changes of a sequence of calls. Each call of
  \<^verbatim>\<open>changeGoalConfigAndVel\<close> leaves one entry: the removal list before the call, the removal
  list after it, and the two indices the cache holds after it.
\<close>

type_synonym goal_change = "nat list \<times> nat list \<times> nat list"

fun is_goal_change :: "('p, 'v) call \<Rightarrow> bool" where
  "is_goal_change (ChangeGoalConfigAndVel goal_conf goal_vel) = True"
| "is_goal_change c = False"

fun goal_changes ::
  "('p, 'v, 'm, 'r, 's, 'i, 'e) ISAM2 \<Rightarrow> ('p, 'v) call list
     \<Rightarrow> ('p, 'v, 'm, 'r, 's, 'i) ISAM2TrajOptimizer \<Rightarrow> goal_change list" where
  "goal_changes solver [] s = []"
| "goal_changes solver (c # cs) s =
     (case call_step solver c s of
        Inl e \<Rightarrow> []
      | Inr s' \<Rightarrow>
          (if is_goal_change c
           then [(removed_factor_index s, removed_factor_index s',
                  [goal_conf_factor_idx s', goal_vel_factor_idx s'])]
           else []) @ goal_changes solver cs s')"

text \<open>
  A log is consistent with the cache when every goal change appended to the removal list
  exactly the two indices cached before it, in the order pose, velocity: those that the
  goal change before it left in the cache, or \<open>prev\<close> for the first one.
\<close>

fun pushes_cached :: "nat list \<Rightarrow> goal_change list \<Rightarrow> bool" where
  "pushes_cached prev [] = True"
| "pushes_cached prev ((before, after, cached) # es) =
     (after = before @ prev \<and> pushes_cached cached es)"

text \<open>
  Sequences of calls without an \<^verbatim>\<open>update\<close>, and the number of goal changes of a sequence.
\<close>

fun is_update :: "('p, 'v) call \<Rightarrow> bool" where
  "is_update Update = True"
| "is_update c = False"

definition no_update :: "('p, 'v) call list \<Rightarrow> bool" where
  "no_update cs = list_all (\<lambda>c. \<not> is_update c) cs"

definition goal_change_count :: "('p, 'v) call list \<Rightarrow> nat" where
  "goal_change_count cs = length (filter is_goal_change cs)"

subsection \<open>The factors of the initial build, in closed form\<close>

text \<open>The factors the inner loop adds when entered at \<open>j\<close>.\<close>

definition interp_factors ::
  "'m TrajOptimizerSetting \<Rightarrow> 'r \<Rightarrow> 's \<Rightarrow> key \<Rightarrow> key \<Rightarrow> key \<Rightarrow> key \<Rightarrow> double \<Rightarrow> double \<Rightarrow> nat
     \<Rightarrow> ('p, 'v, 'm, 'r, 's) factor list" where
  "interp_factors st r sd last_pose_key last_vel_key pose_key vel_key delta_t inter_dt j =
     map (\<lambda>j. OBS_FACTOR_GP last_pose_key last_vel_key pose_key vel_key r sd
                 (cost_sigma st) (epsilon st) (Qc_model st) delta_t (inter_dt * real j))
       [j..<Suc (obs_check_inter st)]"

text \<open>The equality factors of step \<open>i\<close>, its obstacle factor, and what links it to step \<open>i - 1\<close>.\<close>

definition step_priors ::
  "'m TrajOptimizerSetting \<Rightarrow> 'p \<Rightarrow> 'v \<Rightarrow> 'p \<Rightarrow> 'v \<Rightarrow> nat \<Rightarrow> ('p, 'v, 'm, 'r, 's) factor list" where
  "step_priors st start_conf start_vel goal_conf goal_vel i =
     (if i = 0 then
        [PriorFactorPose (Symbol CHR ''x'' i) start_conf (conf_prior_model st),
         PriorFactorVelocity (Symbol CHR ''v'' i) start_vel (vel_prior_model st)]
      else if i = total_step st then
        [PriorFactorPose (Symbol CHR ''x'' i) goal_conf (conf_prior_model st),
         PriorFactorVelocity (Symbol CHR ''v'' i) goal_vel (vel_prior_model st)]
      else [])"

definition step_links ::
  "'m TrajOptimizerSetting \<Rightarrow> 'r \<Rightarrow> 's \<Rightarrow> double \<Rightarrow> double \<Rightarrow> nat \<Rightarrow> ('p, 'v, 'm, 'r, 's) factor list" where
  "step_links st r sd delta_t inter_dt i =
     (if 0 < i then
        interp_factors st r sd (Symbol CHR ''x'' (i - 1)) (Symbol CHR ''v'' (i - 1))
          (Symbol CHR ''x'' i) (Symbol CHR ''v'' i) delta_t inter_dt 1
        @ [GP (Symbol CHR ''x'' (i - 1)) (Symbol CHR ''v'' (i - 1))
             (Symbol CHR ''x'' i) (Symbol CHR ''v'' i) delta_t (Qc_model st)]
      else [])"

definition step_factors ::
  "'m TrajOptimizerSetting \<Rightarrow> 'r \<Rightarrow> 's \<Rightarrow> 'p \<Rightarrow> 'v \<Rightarrow> 'p \<Rightarrow> 'v \<Rightarrow> double \<Rightarrow> double \<Rightarrow> nat
     \<Rightarrow> ('p, 'v, 'm, 'r, 's) factor list" where
  "step_factors st r sd start_conf start_vel goal_conf goal_vel delta_t inter_dt i =
     step_priors st start_conf start_vel goal_conf goal_vel i
     @ [OBS_FACTOR (Symbol CHR ''x'' i) r sd (cost_sigma st) (epsilon st)]
     @ step_links st r sd delta_t inter_dt i"

text \<open>The factors of the steps \<open>i\<close> to \<open>n - 1\<close>, in the order of the steps.\<close>

definition steps_factors ::
  "'m TrajOptimizerSetting \<Rightarrow> 'r \<Rightarrow> 's \<Rightarrow> 'p \<Rightarrow> 'v \<Rightarrow> 'p \<Rightarrow> 'v \<Rightarrow> double \<Rightarrow> double \<Rightarrow> nat \<Rightarrow> nat
     \<Rightarrow> ('p, 'v, 'm, 'r, 's) factor list" where
  "steps_factors st r sd start_conf start_vel goal_conf goal_vel delta_t inter_dt i n =
     concat (map (step_factors st r sd start_conf start_vel goal_conf goal_vel delta_t inter_dt) [i..<n])"

text \<open>
  What \<^verbatim>\<open>initFactorGraph\<close> emits: the part of the buffer after what the buffer held before
  the call.
\<close>

definition emitted ::
  "'p \<Rightarrow> 'v \<Rightarrow> 'p \<Rightarrow> 'v \<Rightarrow> ('p, 'v, 'm, 'r, 's, 'i) ISAM2TrajOptimizer
     \<Rightarrow> ('p, 'v, 'm, 'r, 's) factor list" where
  "emitted start_conf start_vel goal_conf goal_vel s =
     drop (length (inc_graph s)) (inc_graph (initFactorGraph start_conf start_vel goal_conf goal_vel s))"

text \<open>The kinds of factors.\<close>

fun is_prior_at :: "nat \<Rightarrow> ('p, 'v, 'm, 'r, 's) factor \<Rightarrow> bool" where
  "is_prior_at i (PriorFactorPose k x m) = (k = Symbol CHR ''x'' i)"
| "is_prior_at i (PriorFactorVelocity k x m) = (k = Symbol CHR ''v'' i)"
| "is_prior_at i f = False"

fun is_obstacle :: "('p, 'v, 'm, 'r, 's) factor \<Rightarrow> bool" where
  "is_obstacle (OBS_FACTOR k r sd sig eps) = True"
| "is_obstacle f = False"

fun is_interpolated :: "('p, 'v, 'm, 'r, 's) factor \<Rightarrow> bool" where
  "is_interpolated (OBS_FACTOR_GP k1 k2 k3 k4 r sd sig eps qc dt tau) = True"
| "is_interpolated f = False"

fun is_smoothness :: "('p, 'v, 'm, 'r, 's) factor \<Rightarrow> bool" where
  "is_smoothness (GP k1 k2 k3 k4 dt qc) = True"
| "is_smoothness f = False"

text \<open>
  The number of constraints the specification states for a build of \<open>N\<close> steps with \<open>k\<close>
  interpolated checks per step: \<^verbatim>\<open>2 + (N) + N*(1) + N*obs_check_inter\<close>.
\<close>

definition spec_constraint_count :: "nat \<Rightarrow> nat \<Rightarrow> nat" where
  "spec_constraint_count N k = 2 + N + N * 1 + N * k"

text \<open>
  The number of factors that the steps before the last one emit when there is at least one
  step: three for step 0, then an obstacle factor, the interpolated obstacle factors and a
  smoothness factor for each of the steps \<open>1\<close> to \<open>N - 1\<close>.
\<close>

definition goal_position :: "'m TrajOptimizerSetting \<Rightarrow> nat" where
  "goal_position st = 3 + (total_step st - 1) * (obs_check_inter st + 2)"

text \<open>The positions of a sequence that hold a factor of a given kind, in increasing order.\<close>

definition positions :: "('a \<Rightarrow> bool) \<Rightarrow> 'a list \<Rightarrow> nat list" where
  "positions P xs = filter (\<lambda>j. P (xs ! j)) [0..<length xs]"

subsection \<open>Properties of a state at the moment of an update\<close>

text \<open>
  Every pending removal names a factor that an earlier \<^verbatim>\<open>update\<close> committed: its index is
  below the size of the solver's store.
\<close>

definition removals_committed ::
  "('p, 'v, 'm, 'r, 's, 'i, 'e) ISAM2 \<Rightarrow> ('p, 'v, 'm, 'r, 's, 'i) ISAM2TrajOptimizer \<Rightarrow> bool" where
  "removals_committed solver s =
     list_all (\<lambda>r. r < getFactorsUnsafe_size solver (isam s)) (removed_factor_index s)"

text \<open>
  Every pending removal names a factor that an earlier \<^verbatim>\<open>update\<close> committed or one of the
  pending buffer, which this \<^verbatim>\<open>update\<close> commits: its index is below the size of the store
  plus the length of the buffer.
\<close>

definition removals_committed_or_pending ::
  "('p, 'v, 'm, 'r, 's, 'i, 'e) ISAM2 \<Rightarrow> ('p, 'v, 'm, 'r, 's, 'i) ISAM2TrajOptimizer \<Rightarrow> bool" where
  "removals_committed_or_pending solver s =
     list_all (\<lambda>r. r < getFactorsUnsafe_size solver (isam s) + length (inc_graph s))
       (removed_factor_index s)"

text \<open>Both cached goal indices are below the size of the store plus the length of the buffer.\<close>

definition cache_in_range ::
  "('p, 'v, 'm, 'r, 's, 'i, 'e) ISAM2 \<Rightarrow> ('p, 'v, 'm, 'r, 's, 'i) ISAM2TrajOptimizer \<Rightarrow> bool" where
  "cache_in_range solver s =
     (goal_conf_factor_idx s < getFactorsUnsafe_size solver (isam s) + length (inc_graph s)
      \<and> goal_vel_factor_idx s < getFactorsUnsafe_size solver (isam s) + length (inc_graph s))"

text \<open>Both cached goal indices name factors of the committed store.\<close>

definition cache_committed ::
  "('p, 'v, 'm, 'r, 's, 'i, 'e) ISAM2 \<Rightarrow> ('p, 'v, 'm, 'r, 's, 'i) ISAM2TrajOptimizer \<Rightarrow> bool" where
  "cache_committed solver s =
     (goal_conf_factor_idx s < getFactorsUnsafe_size solver (isam s)
      \<and> goal_vel_factor_idx s < getFactorsUnsafe_size solver (isam s))"

text \<open>
  The one property of the solver that the index arithmetic of the source relies on: an
  \<^verbatim>\<open>update\<close> that returns has put the new factors behind those of the store, one slot each,
  and has freed no slot.
\<close>

definition appends_new_factors :: "('p, 'v, 'm, 'r, 's, 'i, 'e) ISAM2 \<Rightarrow> bool" where
  "appends_new_factors solver =
     (\<forall>i g vals rs i'. ISAM2_update solver i g vals rs = Inr i'
        \<longrightarrow> getFactorsUnsafe_size solver i' = getFactorsUnsafe_size solver i + length g)"

subsection \<open>A solver to run the model with\<close>

text \<open>
  Modelled from the spec: the solver is an external engine, of which the specification fixes
  the boundary \<^verbatim>\<open>update(newConstraints, initialGuesses, removeIndices)\<close> and
  \<^verbatim>\<open>committedConstraintCount()\<close>. This instance keeps the committed store as a list of
  slots. An update commits the new constraints in the order of the buffer, behind the store,
  then empties the slots named by the removal indices (the store is not compacted), and
  never fails. Its estimate is the initial guess of every variable it was given.
\<close>

type_synonym ('p, 'v, 'm, 'r, 's) slot_store =
  "('p, 'v, 'm, 'r, 's) factor option list \<times> ('p, 'v) Values"

definition remove_slot ::
  "nat \<Rightarrow> ('p, 'v, 'm, 'r, 's) factor option list \<Rightarrow> ('p, 'v, 'm, 'r, 's) factor option list" where
  "remove_slot r slots = (if r < length slots then slots[r := None] else slots)"

definition slot_store_update ::
  "('p, 'v, 'm, 'r, 's) slot_store \<Rightarrow> ('p, 'v, 'm, 'r, 's) factor list \<Rightarrow> ('p, 'v) Values \<Rightarrow> nat list
     \<Rightarrow> unit + ('p, 'v, 'm, 'r, 's) slot_store" where
  "slot_store_update st new_factors new_values remove_indices =
     Inr (fold remove_slot remove_indices (fst st @ map Some new_factors), snd st ++ new_values)"

definition slot_store_solver ::
  "('p, 'v, 'm, 'r, 's, ('p, 'v, 'm, 'r, 's) slot_store, unit) ISAM2" where
  "slot_store_solver =
     \<lparr>ISAM2_update = slot_store_update,
      getFactorsUnsafe_size = (\<lambda>st. length (fst st)),
      calculateEstimate = snd\<rparr>"

text \<open>
  A freshly constructed optimizer over that solver, for \<open>N\<close> steps and \<open>k\<close> interpolated
  checks per step; poses and velocities are vectors, the noise models, the robot and the
  signed distance field are names.
\<close>

definition demo_setting :: "nat \<Rightarrow> nat \<Rightarrow> string TrajOptimizerSetting" where
  "demo_setting N k =
     \<lparr>total_step = N, total_time = 10, obs_check_inter = k,
      conf_prior_model = ''conf_prior'', vel_prior_model = ''vel_prior'', Qc_model = ''Qc'',
      cost_sigma = 1, epsilon = 1\<rparr>"

type_synonym demo_optimizer =
  "(real list, real list, string, string, string,
    (real list, real list, string, string, string) slot_store) ISAM2TrajOptimizer"

definition demo_solver ::
  "(real list, real list, string, string, string,
    (real list, real list, string, string, string) slot_store, unit) ISAM2" where
  "demo_solver = slot_store_solver"

definition demo_optimizer :: "nat \<Rightarrow> nat \<Rightarrow> demo_optimizer" where
  "demo_optimizer N k = new_ISAM2TrajOptimizer ''arm'' ''sdf'' (demo_setting N k) ([], Map.empty)"

text \<open>The same optimizer with its factor graph built, from the start (0, 0) to the goal (10, 0).\<close>

definition demo_built :: "nat \<Rightarrow> nat \<Rightarrow> demo_optimizer" where
  "demo_built N k = initFactorGraph [0, 0] [0, 0] [10, 0] [0, 0] (demo_optimizer N k)"

text \<open>The outcome of a sequence of calls on the built optimizer.\<close>

definition demo_after :: "(real list, real list) call list \<Rightarrow> nat \<Rightarrow> nat \<Rightarrow> unit + demo_optimizer" where
  "demo_after cs N k = run demo_solver cs (demo_built N k)"

section \<open>What the member functions do, in closed form\<close>

text \<open>
  Each member function is a sequence of assignments to members of the optimizer; the lemmas of
  this section give the state it returns as one record update of the state it was called on.
\<close>

lemma interp_loop_eq:
  "interp_loop a b c d dt idt j s =
     s\<lparr>inc_graph := inc_graph s @ interp_factors (setting s) (arm s) (sdf s) a b c d dt idt j\<rparr>"
proof (induction a b c d dt idt j s rule: interp_loop.induct)
  case (1 a b c d dt idt j s)
  show ?case
  proof (cases "j \<le> obs_check_inter (setting s)")
    case True
    then have "[j..<Suc (obs_check_inter (setting s))] = j # [Suc j..<Suc (obs_check_inter (setting s))]"
      by (simp add: upt_conv_Cons)
    with 1 [OF True refl] True show ?thesis
      by (subst interp_loop.simps) (simp add: inc_graph_add_def interp_factors_def)
  next
    case False
    then show ?thesis
      by (subst interp_loop.simps) (simp add: interp_factors_def)
  qed
qed

lemma build_step_eq:
  "build_step sc sv gc gv dt idt i s =
     s\<lparr>inc_graph := inc_graph s @ step_factors (setting s) (arm s) (sdf s) sc sv gc gv dt idt i,
       goal_conf_factor_idx :=
         (if 0 < i \<and> i = total_step (setting s) then length (inc_graph s) else goal_conf_factor_idx s),
       goal_vel_factor_idx :=
         (if 0 < i \<and> i = total_step (setting s) then length (inc_graph s) + 1 else goal_vel_factor_idx s)\<rparr>"
  by (simp add: build_step_def Let_def interp_loop_eq inc_graph_add_def step_factors_def
      step_priors_def step_links_def interp_factors_def)

lemma steps_factors_Cons:
  "i < n \<Longrightarrow> steps_factors st r sd sc sv gc gv dt idt i n =
     step_factors st r sd sc sv gc gv dt idt i @ steps_factors st r sd sc sv gc gv dt idt (Suc i) n"
  by (simp add: steps_factors_def upt_conv_Cons)

lemma steps_factors_empty:
  "n \<le> i \<Longrightarrow> steps_factors st r sd sc sv gc gv dt idt i n = []"
  by (simp add: steps_factors_def)

lemma build_loop_eq:
  "build_loop sc sv gc gv dt idt i s =
     (if i \<le> total_step (setting s) then
        s\<lparr>inc_graph := inc_graph s
             @ steps_factors (setting s) (arm s) (sdf s) sc sv gc gv dt idt i (Suc (total_step (setting s))),
          goal_conf_factor_idx :=
            (if 0 < total_step (setting s)
             then length (inc_graph s)
                  + length (steps_factors (setting s) (arm s) (sdf s) sc sv gc gv dt idt i (total_step (setting s))
                              :: ('p, 'v, 'm, 'r, 's) factor list)
             else goal_conf_factor_idx s),
          goal_vel_factor_idx :=
            (if 0 < total_step (setting s)
             then length (inc_graph s)
                  + length (steps_factors (setting s) (arm s) (sdf s) sc sv gc gv dt idt i (total_step (setting s))
                              :: ('p, 'v, 'm, 'r, 's) factor list) + 1
             else goal_vel_factor_idx s)\<rparr>
      else s)"
  for s :: "('p, 'v, 'm, 'r, 's, 'i) ISAM2TrajOptimizer"
proof (induction sc sv gc gv dt idt i s rule: build_loop.induct)
  case (1 sc sv gc gv dt idt i s)
  show ?case
  proof (cases "i \<le> total_step (setting s)")
    case False
    then show ?thesis
      by (subst build_loop.simps) simp
  next
    case True
    note IH = 1 [OF True]
    show ?thesis
    proof (cases "i = total_step (setting s)")
      case True
      then show ?thesis
        using IH
        by (subst build_loop.simps)
           (simp add: build_step_eq steps_factors_Cons steps_factors_empty)
    next
      case False
      with \<open>i \<le> total_step (setting s)\<close> have lt: "i < total_step (setting s)"
        by simp
      then show ?thesis
        using IH
        by (subst build_loop.simps)
           (simp add: build_step_eq steps_factors_Cons)
    qed
  qed
qed

lemma initFactorGraph_eq:
  "initFactorGraph sc sv gc gv s =
     build_loop sc sv gc gv
       (total_time (setting s) / real (total_step (setting s)))
       (total_time (setting s) / real (total_step (setting s)) / real (obs_check_inter (setting s) + 1))
       0 s"
  by (simp add: initFactorGraph_def Let_def)

lemma changeGoalConfigAndVel_eq:
  "changeGoalConfigAndVel solver gc gv s =
     s\<lparr>removed_factor_index := removed_factor_index s @ [goal_conf_factor_idx s, goal_vel_factor_idx s],
       inc_graph := inc_graph s
         @ [PriorFactorPose (Symbol CHR ''x'' (total_step (setting s))) gc (conf_prior_model (setting s)),
            PriorFactorVelocity (Symbol CHR ''v'' (total_step (setting s))) gv (vel_prior_model (setting s))],
       goal_conf_factor_idx := getFactorsUnsafe_size solver (isam s) + length (inc_graph s),
       goal_vel_factor_idx := getFactorsUnsafe_size solver (isam s) + length (inc_graph s) + 1\<rparr>"
  by (simp add: changeGoalConfigAndVel_def Let_def inc_graph_add_def)

lemma fixConfigAndVel_eq:
  "fixConfigAndVel state_idx conf_fix vel_fix s =
     s\<lparr>inc_graph := inc_graph s
         @ [PriorFactorPose (Symbol CHR ''x'' state_idx) conf_fix (conf_prior_model (setting s)),
            PriorFactorVelocity (Symbol CHR ''v'' state_idx) vel_fix (vel_prior_model (setting s))]\<rparr>"
  by (simp add: fixConfigAndVel_def Let_def inc_graph_add_def)

lemma update_Inr:
  "update solver s = Inr s' \<Longrightarrow>
     \<exists>i'. ISAM2_update solver (isam s) (inc_graph s) (init_values s) (removed_factor_index s) = Inr i'
       \<and> s' = s\<lparr>isam := i', opt_values := calculateEstimate solver i', init_values := Map.empty,
                 inc_graph := [], removed_factor_index := []\<rparr>"
  by (auto simp: update_def Let_def split: sum.splits)


subsection \<open>The factors of the initial build\<close>

lemma steps_factors_Suc:
  "i \<le> n \<Longrightarrow> steps_factors st r sd sc sv gc gv dt idt i (Suc n) =
     steps_factors st r sd sc sv gc gv dt idt i n @ step_factors st r sd sc sv gc gv dt idt n"
  by (simp add: steps_factors_def)

lemma steps_factors_nil [simp]:
  "steps_factors st r sd sc sv gc gv dt idt i i = []"
  by (simp add: steps_factors_def)

lemma length_interp_factors:
  "length (interp_factors st r sd a b c d dt idt (Suc 0)) = obs_check_inter st"
  by (simp add: interp_factors_def)

lemma length_step_factors:
  "length (step_factors st r sd sc sv gc gv dt idt i) =
     (if i = 0 \<or> i = total_step st then 2 else 0) + 1
     + (if 0 < i then obs_check_inter st + 1 else 0)"
  by (simp add: step_factors_def step_priors_def step_links_def length_interp_factors)

lemma length_steps_factors_Suc:
  "n < total_step st \<Longrightarrow>
     length (steps_factors st r sd sc sv gc gv dt idt 0 (Suc n)) = 3 + n * (obs_check_inter st + 2)"
  by (induction n) (simp_all add: steps_factors_Suc length_step_factors)

lemma length_steps_factors:
  "0 < total_step st \<Longrightarrow>
     length (steps_factors st r sd sc sv gc gv dt idt 0 (total_step st)) = goal_position st"
  using length_steps_factors_Suc [of "total_step st - 1" st r sd sc sv gc gv dt idt]
  by (simp add: goal_position_def)

lemma length_all_steps_factors:
  "0 < total_step st \<Longrightarrow>
     length (steps_factors st r sd sc sv gc gv dt idt 0 (Suc (total_step st))) =
       5 + 2 * total_step st + total_step st * obs_check_inter st"
proof -
  assume pos: "0 < total_step st"
  then obtain m where m: "total_step st = Suc m"
    by (cases "total_step st") auto
  have "length (steps_factors st r sd sc sv gc gv dt idt 0 (Suc m)) = 3 + m * (obs_check_inter st + 2)"
    by (rule length_steps_factors_Suc) (simp add: m)
  then show ?thesis
    by (simp add: steps_factors_Suc [of 0 "Suc m"] length_step_factors m)
qed

lemma filter_obstacle_step:
  "length (filter is_obstacle (step_factors st r sd sc sv gc gv dt idt i)) = 1"
  by (simp add: step_factors_def step_priors_def step_links_def interp_factors_def o_def)

lemma filter_smoothness_step:
  "length (filter is_smoothness (step_factors st r sd sc sv gc gv dt idt i)) = (if 0 < i then 1 else 0)"
  by (simp add: step_factors_def step_priors_def step_links_def interp_factors_def o_def)

lemma filter_interpolated_step:
  "length (filter is_interpolated (step_factors st r sd sc sv gc gv dt idt i))
     = (if 0 < i then obs_check_inter st else 0)"
  by (simp add: step_factors_def step_priors_def step_links_def interp_factors_def o_def)

lemma filter_prior_step:
  "filter (is_prior_at j) (step_factors st r sd sc sv gc gv dt idt i)
     = (if i = j then step_priors st sc sv gc gv i else [])"
  by (simp add: step_factors_def step_priors_def step_links_def interp_factors_def o_def)

lemma count_obstacle_steps:
  "length (filter is_obstacle (steps_factors st r sd sc sv gc gv dt idt 0 n)) = n"
  by (induction n) (simp_all add: steps_factors_Suc filter_obstacle_step)

lemma count_smoothness_steps:
  "length (filter is_smoothness (steps_factors st r sd sc sv gc gv dt idt 0 n)) = n - 1"
  by (induction n) (auto simp: steps_factors_Suc filter_smoothness_step)

lemma count_interpolated_steps:
  "length (filter is_interpolated (steps_factors st r sd sc sv gc gv dt idt 0 n))
     = (n - 1) * obs_check_inter st"
proof (induction n)
  case 0
  show ?case by simp
next
  case (Suc n)
  then show ?case
    by (cases n) (simp_all add: steps_factors_Suc filter_interpolated_step)
qed

lemma filter_prior_steps:
  "filter (is_prior_at j) (steps_factors st r sd sc sv gc gv dt idt 0 n)
     = (if j < n then step_priors st sc sv gc gv j else [])"
  by (induction n) (auto simp: steps_factors_Suc filter_prior_step less_Suc_eq)

lemma initFactorGraph_closed:
  "initFactorGraph sc sv gc gv s =
     s\<lparr>inc_graph := inc_graph s @ emitted sc sv gc gv s,
       goal_conf_factor_idx :=
         (if 0 < total_step (setting s)
          then length (inc_graph s) + goal_position (setting s)
          else goal_conf_factor_idx s),
       goal_vel_factor_idx :=
         (if 0 < total_step (setting s)
          then length (inc_graph s) + goal_position (setting s) + 1
          else goal_vel_factor_idx s)\<rparr>"
  by (simp add: emitted_def initFactorGraph_eq build_loop_eq length_steps_factors)

lemma emitted_eq:
  "emitted sc sv gc gv s =
     steps_factors (setting s) (arm s) (sdf s) sc sv gc gv
       (total_time (setting s) / real (total_step (setting s)))
       (total_time (setting s) / real (total_step (setting s)) / real (obs_check_inter (setting s) + 1))
       0 (Suc (total_step (setting s)))"
  by (simp add: emitted_def initFactorGraph_eq build_loop_eq)

lemma positions_snoc:
  "positions P (xs @ [x]) = positions P xs @ (if P x then [length xs] else [])"
proof -
  have "filter (\<lambda>j. P ((xs @ [x]) ! j)) [0..<length xs] = filter (\<lambda>j. P (xs ! j)) [0..<length xs]"
    by (rule filter_cong) (simp_all add: nth_append)
  then show ?thesis
    by (simp add: positions_def)
qed

lemma positions_append:
  "positions P (xs @ ys) = positions P xs @ map (\<lambda>j. length xs + j) (positions P ys)"
proof (induction ys rule: rev_induct)
  case Nil
  show ?case by (simp add: positions_def)
next
  case (snoc y ys)
  have "positions P (xs @ ys @ [y]) = positions P ((xs @ ys) @ [y])"
    by simp
  also have "\<dots> = positions P (xs @ ys) @ (if P y then [length (xs @ ys)] else [])"
    by (rule positions_snoc)
  finally show ?case
    by (simp add: snoc.IH positions_snoc)
qed

lemma positions_none:
  "filter P xs = [] \<Longrightarrow> positions P xs = []"
  by (auto simp: positions_def filter_empty_conv)

lemma positions_Cons:
  "positions P (x # xs) = (if P x then [0] else []) @ map Suc (positions P xs)"
  using positions_append [of P "[x]" xs]
  by (simp add: positions_def)

lemma positions_Nil [simp]: "positions P [] = []"
  by (simp add: positions_def)

lemma positions_prior_links:
  "positions (is_prior_at j) (step_links st r sd dt idt i) = []"
  by (rule positions_none) (simp add: step_links_def interp_factors_def o_def)

lemma positions_goal_step:
  "0 < total_step st \<Longrightarrow>
     positions (is_prior_at (total_step st)) (step_factors st r sd sc sv gc gv dt idt (total_step st))
       = [0, 1]"
  by (simp add: step_factors_def step_priors_def positions_Cons positions_append
      positions_prior_links)

lemma positions_goal_steps:
  "0 < total_step st \<Longrightarrow>
     positions (is_prior_at (total_step st))
       (steps_factors st r sd sc sv gc gv dt idt 0 (Suc (total_step st)))
     = [goal_position st, Suc (goal_position st)]"
proof -
  assume pos: "0 < total_step st"
  have "positions (is_prior_at (total_step st))
          (steps_factors st r sd sc sv gc gv dt idt 0 (total_step st)) = []"
    by (rule positions_none) (simp add: filter_prior_steps)
  with pos show ?thesis
    by (simp add: steps_factors_Suc positions_append positions_goal_step length_steps_factors)
qed

lemma nth_goal_steps:
  "0 < total_step st \<Longrightarrow>
     steps_factors st r sd sc sv gc gv dt idt 0 (Suc (total_step st)) ! goal_position st
     = PriorFactorPose (Symbol CHR ''x'' (total_step st)) gc (conf_prior_model st)
   \<and> steps_factors st r sd sc sv gc gv dt idt 0 (Suc (total_step st)) ! Suc (goal_position st)
     = PriorFactorVelocity (Symbol CHR ''v'' (total_step st)) gv (vel_prior_model st)"
proof -
  assume pos: "0 < total_step st"
  let ?A = "steps_factors st r sd sc sv gc gv dt idt 0 (total_step st)"
  let ?S = "step_factors st r sd sc sv gc gv dt idt (total_step st)"
  have len: "length ?A = goal_position st"
    using pos by (rule length_steps_factors)
  have split: "steps_factors st r sd sc sv gc gv dt idt 0 (Suc (total_step st)) = ?A @ ?S"
    by (simp add: steps_factors_Suc)
  have "(?A @ ?S) ! (length ?A + 0) = ?S ! 0" and "(?A @ ?S) ! (length ?A + 1) = ?S ! 1"
    by (simp_all only: nth_append_length_plus)
  moreover have "?S ! 0 = PriorFactorPose (Symbol CHR ''x'' (total_step st)) gc (conf_prior_model st)"
    and "?S ! 1 = PriorFactorVelocity (Symbol CHR ''v'' (total_step st)) gv (vel_prior_model st)"
    using pos by (simp_all add: step_factors_def step_priors_def)
  ultimately show ?thesis
    by (simp add: split len)
qed

lemma positions_goal_emitted:
  "0 < total_step (setting s) \<Longrightarrow>
     positions (is_prior_at (total_step (setting s))) (emitted sc sv gc gv s)
       = [goal_position (setting s), Suc (goal_position (setting s))]"
  by (simp only: emitted_eq positions_goal_steps)

lemma nth_goal_emitted:
  "0 < total_step (setting s) \<Longrightarrow>
     emitted sc sv gc gv s ! goal_position (setting s)
       = PriorFactorPose (Symbol CHR ''x'' (total_step (setting s))) gc (conf_prior_model (setting s))
   \<and> emitted sc sv gc gv s ! Suc (goal_position (setting s))
       = PriorFactorVelocity (Symbol CHR ''v'' (total_step (setting s))) gv (vel_prior_model (setting s))"
  by (simp only: emitted_eq nth_goal_steps)

lemma new_ISAM2TrajOptimizer_simps:
  "setting (new_ISAM2TrajOptimizer r sd st isam0) = st"
  "arm (new_ISAM2TrajOptimizer r sd st isam0) = r"
  "sdf (new_ISAM2TrajOptimizer r sd st isam0) = sd"
  "isam (new_ISAM2TrajOptimizer r sd st isam0) = isam0"
  "inc_graph (new_ISAM2TrajOptimizer r sd st isam0) = []"
  "init_values (new_ISAM2TrajOptimizer r sd st isam0) = Map.empty"
  "removed_factor_index (new_ISAM2TrajOptimizer r sd st isam0) = []"
  "opt_values (new_ISAM2TrajOptimizer r sd st isam0) = Map.empty"
  "goal_conf_factor_idx (new_ISAM2TrajOptimizer r sd st isam0) = 0"
  "goal_vel_factor_idx (new_ISAM2TrajOptimizer r sd st isam0) = 0"
  by (simp_all add: new_ISAM2TrajOptimizer_def)

lemma length_emitted:
  "0 < total_step (setting s) \<Longrightarrow>
     length (emitted sc sv gc gv s)
       = 5 + 2 * total_step (setting s) + total_step (setting s) * obs_check_inter (setting s)"
  by (simp only: emitted_eq length_all_steps_factors)

lemma emitted_zero_steps:
  "total_step (setting s) = 0 \<Longrightarrow>
     emitted sc sv gc gv s
       = [PriorFactorPose (Symbol CHR ''x'' 0) sc (conf_prior_model (setting s)),
          PriorFactorVelocity (Symbol CHR ''v'' 0) sv (vel_prior_model (setting s)),
          OBS_FACTOR (Symbol CHR ''x'' 0) (arm s) (sdf s) (cost_sigma (setting s)) (epsilon (setting s))]"
  by (simp add: emitted_eq steps_factors_Suc step_factors_def step_priors_def step_links_def)

subsection \<open>Sequences of calls\<close>

lemma update_cache:
  "update solver s = Inr s' \<Longrightarrow>
     goal_conf_factor_idx s' = goal_conf_factor_idx s \<and> goal_vel_factor_idx s' = goal_vel_factor_idx s"
  by (auto dest: update_Inr)

lemma goal_changes_push_cached:
  "pushes_cached [goal_conf_factor_idx s, goal_vel_factor_idx s] (goal_changes solver cs s)"
proof (induction cs arbitrary: s)
  case Nil
  show ?case by simp
next
  case (Cons c cs)
  show ?case
  proof (cases c)
    case (InitValues vals)
    with Cons.IH [of "initValues vals s"] show ?thesis
      by (simp add: initValues_def)
  next
    case Update
    show ?thesis
    proof (cases "update solver s")
      case (Inl e)
      with Update show ?thesis by simp
    next
      case (Inr s')
      with Update Cons.IH [of s'] update_cache [OF Inr] show ?thesis
        by simp
    qed
  next
    case (ChangeGoalConfigAndVel gc gv)
    with Cons.IH [of "changeGoalConfigAndVel solver gc gv s"] show ?thesis
      by (simp add: changeGoalConfigAndVel_eq)
  next
    case (FixConfigAndVel i cf vf)
    with Cons.IH [of "fixConfigAndVel i cf vf s"] show ?thesis
      by (simp add: fixConfigAndVel_eq)
  qed
qed

lemma call_step_in_range:
  assumes solver: "appends_new_factors solver"
    and inv: "cache_in_range solver s" "removals_committed_or_pending solver s"
    and step: "call_step solver c s = Inr s'"
  shows "cache_in_range solver s' \<and> removals_committed_or_pending solver s'"
proof (cases c)
  case (InitValues vals)
  with inv step show ?thesis
    by (auto simp: initValues_def cache_in_range_def removals_committed_or_pending_def)
next
  case Update
  with step have upd: "update solver s = Inr s'"
    by simp
  from update_Inr [OF upd] obtain i' where
    i': "ISAM2_update solver (isam s) (inc_graph s) (init_values s) (removed_factor_index s) = Inr i'"
    and s': "s' = s\<lparr>isam := i', opt_values := calculateEstimate solver i', init_values := Map.empty,
                     inc_graph := [], removed_factor_index := []\<rparr>"
    by blast
  from solver i' have "getFactorsUnsafe_size solver i'
      = getFactorsUnsafe_size solver (isam s) + length (inc_graph s)"
    by (simp add: appends_new_factors_def)
  with inv s' show ?thesis
    by (simp add: cache_in_range_def removals_committed_or_pending_def)
next
  case (ChangeGoalConfigAndVel gc gv)
  with step have s': "s' = changeGoalConfigAndVel solver gc gv s"
    by simp
  from inv show ?thesis
    by (auto simp: s' changeGoalConfigAndVel_eq cache_in_range_def
        removals_committed_or_pending_def list_all_iff)
next
  case (FixConfigAndVel i cf vf)
  with step have s': "s' = fixConfigAndVel i cf vf s"
    by simp
  from inv show ?thesis
    by (auto simp: s' fixConfigAndVel_eq cache_in_range_def
        removals_committed_or_pending_def list_all_iff)
qed

lemma run_in_range:
  "appends_new_factors solver \<Longrightarrow> cache_in_range solver s \<Longrightarrow>
   removals_committed_or_pending solver s \<Longrightarrow> run solver cs s = Inr s' \<Longrightarrow>
     cache_in_range solver s' \<and> removals_committed_or_pending solver s'"
proof (induction cs arbitrary: s)
  case Nil
  then show ?case by simp
next
  case (Cons c cs)
  from Cons.prems(4) obtain s1 where c: "call_step solver c s = Inr s1" and cs: "run solver cs s1 = Inr s'"
    by (auto split: sum.splits)
  from call_step_in_range [OF Cons.prems(1-3) c] Cons.IH [OF Cons.prems(1) _ _ cs]
  show ?case
    by blast
qed

lemma goal_position_less:
  "0 < total_step st \<Longrightarrow>
     goal_position st + 1 < 5 + 2 * total_step st + total_step st * obs_check_inter st"
  by (cases "total_step st") (simp_all add: goal_position_def)

lemma built_in_range:
  "inc_graph s = [] \<Longrightarrow> removed_factor_index s = [] \<Longrightarrow> goal_conf_factor_idx s = 0 \<Longrightarrow>
   goal_vel_factor_idx s = 0 \<Longrightarrow>
     cache_in_range solver (initFactorGraph sc sv gc gv s)
     \<and> removals_committed_or_pending solver (initFactorGraph sc sv gc gv s)"
proof (cases "0 < total_step (setting s)")
  case True
  assume "inc_graph s = []" "removed_factor_index s = []"
  with True goal_position_less [OF True] show ?thesis
    by (simp add: initFactorGraph_closed cache_in_range_def removals_committed_or_pending_def
        length_emitted)
next
  case False
  assume "inc_graph s = []" "removed_factor_index s = []" "goal_conf_factor_idx s = 0"
    "goal_vel_factor_idx s = 0"
  with False show ?thesis
    by (simp add: initFactorGraph_closed cache_in_range_def removals_committed_or_pending_def
        emitted_zero_steps)
qed

lemma run_append:
  "run solver (cs1 @ cs2) s = Inr s' \<longleftrightarrow>
     (\<exists>s1. run solver cs1 s = Inr s1 \<and> run solver cs2 s1 = Inr s')"
  by (induction cs1 arbitrary: s) (auto split: sum.splits)

lemma call_step_no_update:
  assumes "call_step solver c s = Inr s'" and "\<not> is_update c"
  shows "isam s' = isam s"
    and "\<not> is_goal_change c \<Longrightarrow> removed_factor_index s' = removed_factor_index s"
    and "\<not> is_goal_change c \<Longrightarrow> goal_conf_factor_idx s' = goal_conf_factor_idx s"
    and "\<not> is_goal_change c \<Longrightarrow> goal_vel_factor_idx s' = goal_vel_factor_idx s"
    and "is_goal_change c \<Longrightarrow>
           removed_factor_index s' = removed_factor_index s @ [goal_conf_factor_idx s, goal_vel_factor_idx s]"
    and "is_goal_change c \<Longrightarrow>
           goal_conf_factor_idx s' = getFactorsUnsafe_size solver (isam s) + length (inc_graph s)"
  using assms
  by (cases c; simp add: initValues_def changeGoalConfigAndVel_eq fixConfigAndVel_eq; fastforce)+

lemma no_update_Cons [simp]: "no_update (c # cs) \<longleftrightarrow> \<not> is_update c \<and> no_update cs"
  by (simp add: no_update_def)

lemma no_update_Nil [simp]: "no_update []"
  by (simp add: no_update_def)

lemma no_update_append [simp]: "no_update (cs1 @ cs2) \<longleftrightarrow> no_update cs1 \<and> no_update cs2"
  by (simp add: no_update_def)

lemma goal_change_count_Cons [simp]:
  "goal_change_count (c # cs) = (if is_goal_change c then 1 else 0) + goal_change_count cs"
  by (simp add: goal_change_count_def)

lemma goal_change_count_Nil [simp]: "goal_change_count [] = 0"
  by (simp add: goal_change_count_def)

lemma run_Cons_Inr:
  "run solver (c # cs) s = Inr s' \<longleftrightarrow>
     (\<exists>s1. call_step solver c s = Inr s1 \<and> run solver cs s1 = Inr s')"
  by (auto split: sum.splits)

lemma run_no_update_isam:
  "no_update cs \<Longrightarrow> run solver cs s = Inr s' \<Longrightarrow> isam s' = isam s"
proof (induction cs arbitrary: s)
  case Nil
  then show ?case by simp
next
  case (Cons c cs)
  from Cons.prems(2) obtain s1 where c: "call_step solver c s = Inr s1" and cs: "run solver cs s1 = Inr s'"
    by (auto split: sum.splits)
  from Cons.prems have nu: "\<not> is_update c" "no_update cs"
    by simp_all
  from Cons.IH [OF nu(2) cs] call_step_no_update(1) [OF c nu(1)] show ?case
    by simp
qed

lemma run_no_update_committed:
  "no_update cs \<Longrightarrow> run solver cs s = Inr s' \<Longrightarrow> removals_committed solver s \<Longrightarrow>
   goal_change_count cs = 0 \<or> (goal_change_count cs \<le> 1 \<and> cache_committed solver s) \<Longrightarrow>
     removals_committed solver s'"
proof (induction cs arbitrary: s)
  case Nil
  then show ?case by simp
next
  case (Cons c cs)
  from Cons.prems(2) obtain s1 where c: "call_step solver c s = Inr s1" and cs: "run solver cs s1 = Inr s'"
    by (auto split: sum.splits)
  from Cons.prems have nu: "\<not> is_update c" "no_update cs"
    by simp_all
  note frame = call_step_no_update [OF c nu(1)]
  show ?case
  proof (cases "is_goal_change c")
    case True
    with Cons.prems(4) have cc: "cache_committed solver s" and rest: "goal_change_count cs = 0"
      by simp_all
    from cc Cons.prems(3) frame(1) frame(5) [OF True] have "removals_committed solver s1"
      by (simp add: removals_committed_def cache_committed_def)
    from Cons.IH [OF nu(2) cs this] rest show ?thesis
      by simp
  next
    case False
    from Cons.prems(3) frame(1) frame(2) [OF False] have r: "removals_committed solver s1"
      by (simp add: removals_committed_def)
    from frame(1) frame(3) [OF False] frame(4) [OF False]
    have "cache_committed solver s1 = cache_committed solver s"
      by (simp add: cache_committed_def)
    with Cons.prems(4) False
    have "goal_change_count cs = 0 \<or> (goal_change_count cs \<le> 1 \<and> cache_committed solver s1)"
      by simp
    from Cons.IH [OF nu(2) cs r this] show ?thesis .
  qed
qed

lemma update_commits_cache:
  assumes solver: "appends_new_factors solver"
    and inv: "cache_in_range solver s"
    and upd: "update solver s = Inr s'"
  shows "cache_committed solver s' \<and> removals_committed solver s'"
proof -
  from update_Inr [OF upd] obtain i' where
    i': "ISAM2_update solver (isam s) (inc_graph s) (init_values s) (removed_factor_index s) = Inr i'"
    and s': "s' = s\<lparr>isam := i', opt_values := calculateEstimate solver i', init_values := Map.empty,
                     inc_graph := [], removed_factor_index := []\<rparr>"
    by blast
  from solver i' have "getFactorsUnsafe_size solver i'
      = getFactorsUnsafe_size solver (isam s) + length (inc_graph s)"
    by (simp add: appends_new_factors_def)
  with inv s' show ?thesis
    by (simp add: cache_in_range_def cache_committed_def removals_committed_def)
qed

lemma run_no_update_not_committed:
  "no_update cs \<Longrightarrow> run solver cs s = Inr s' \<Longrightarrow> \<not> removals_committed solver s \<Longrightarrow>
     \<not> removals_committed solver s'"
proof (induction cs arbitrary: s)
  case Nil
  then show ?case by simp
next
  case (Cons c cs)
  from Cons.prems(2) obtain s1 where c: "call_step solver c s = Inr s1" and cs: "run solver cs s1 = Inr s'"
    by (auto split: sum.splits)
  from Cons.prems have nu: "\<not> is_update c" "no_update cs"
    by simp_all
  note frame = call_step_no_update [OF c nu(1)]
  from Cons.prems(3) frame(1) frame(2) frame(5) have "\<not> removals_committed solver s1"
    by (cases "is_goal_change c") (simp_all add: removals_committed_def)
  from Cons.IH [OF nu(2) cs this] show ?case .
qed

lemma run_no_update_in_flight:
  "no_update cs \<Longrightarrow> run solver cs s = Inr s' \<Longrightarrow>
   getFactorsUnsafe_size solver (isam s) \<le> goal_conf_factor_idx s \<Longrightarrow>
     getFactorsUnsafe_size solver (isam s') \<le> goal_conf_factor_idx s'"
proof (induction cs arbitrary: s)
  case Nil
  then show ?case by simp
next
  case (Cons c cs)
  from Cons.prems(2) obtain s1 where c: "call_step solver c s = Inr s1" and cs: "run solver cs s1 = Inr s'"
    by (auto split: sum.splits)
  from Cons.prems have nu: "\<not> is_update c" "no_update cs"
    by simp_all
  note frame = call_step_no_update [OF c nu(1)]
  from Cons.prems(3) frame(1) frame(3) frame(6)
  have "getFactorsUnsafe_size solver (isam s1) \<le> goal_conf_factor_idx s1"
    by (cases "is_goal_change c") simp_all
  from Cons.IH [OF nu(2) cs this] show ?case .
qed

lemma second_goal_change_in_flight:
  assumes run: "run solver (ChangeGoalConfigAndVel a b # cs2 @ ChangeGoalConfigAndVel c d # cs3) s = Inr s'"
    and nu: "no_update cs2" "no_update cs3"
  shows "\<not> removals_committed solver s'"
proof -
  let ?s1 = "changeGoalConfigAndVel solver a b s"
  from run have "run solver (cs2 @ ChangeGoalConfigAndVel c d # cs3) ?s1 = Inr s'"
    by simp
  then obtain s2 where s2: "run solver cs2 ?s1 = Inr s2"
    and rest: "run solver (ChangeGoalConfigAndVel c d # cs3) s2 = Inr s'"
    by (auto simp: run_append)
  have "getFactorsUnsafe_size solver (isam ?s1) \<le> goal_conf_factor_idx ?s1"
    by (simp add: changeGoalConfigAndVel_eq)
  from run_no_update_in_flight [OF nu(1) s2 this]
  have flight: "getFactorsUnsafe_size solver (isam s2) \<le> goal_conf_factor_idx s2" .
  let ?s3 = "changeGoalConfigAndVel solver c d s2"
  from rest have s3: "run solver cs3 ?s3 = Inr s'"
    by simp
  from flight have "\<not> removals_committed solver ?s3"
    by (simp add: removals_committed_def changeGoalConfigAndVel_eq)
  from run_no_update_not_committed [OF nu(2) s3 this] show ?thesis .
qed

lemma update_then_one_goal_change_committed:
  assumes solver: "appends_new_factors solver"
    and inv: "cache_in_range solver s0" "removals_committed_or_pending solver s0"
    and run: "run solver (cs1 @ Update # cs2) s0 = Inr s"
    and cs2: "no_update cs2" "goal_change_count cs2 \<le> 1"
  shows "removals_committed solver s"
proof -
  from run obtain s1 where s1: "run solver cs1 s0 = Inr s1"
    and rest: "run solver (Update # cs2) s1 = Inr s"
    by (auto simp: run_append)
  from rest obtain s2 where upd: "update solver s1 = Inr s2" and s2: "run solver cs2 s2 = Inr s"
    by (auto split: sum.splits)
  from run_in_range [OF solver inv s1] have "cache_in_range solver s1"
    by simp
  from update_commits_cache [OF solver this upd]
  have "cache_committed solver s2" and "removals_committed solver s2"
    by simp_all
  with run_no_update_committed [OF cs2(1) s2] cs2(2) show ?thesis
    by simp
qed

lemma goal_change_on_empty_store_in_flight:
  assumes empty: "getFactorsUnsafe_size solver (isam s0) = 0"
    and run: "run solver (cs1 @ ChangeGoalConfigAndVel a b # cs2) s0 = Inr s"
    and nu: "no_update cs1" "no_update cs2"
  shows "\<not> removals_committed solver s"
proof -
  from run obtain s1 where s1: "run solver cs1 s0 = Inr s1"
    and rest: "run solver (ChangeGoalConfigAndVel a b # cs2) s1 = Inr s"
    by (auto simp: run_append)
  from run_no_update_isam [OF nu(1) s1] empty have "getFactorsUnsafe_size solver (isam s1) = 0"
    by simp
  then have "\<not> removals_committed solver (changeGoalConfigAndVel solver a b s1)"
    by (simp add: removals_committed_def changeGoalConfigAndVel_eq)
  moreover from rest have "run solver cs2 (changeGoalConfigAndVel solver a b s1) = Inr s"
    by simp
  ultimately show ?thesis
    using run_no_update_not_committed [OF nu(2)] by blast
qed

lemma two_goal_changes_in_flight:
  assumes run: "run solver (cs1 @ ChangeGoalConfigAndVel a b # cs2 @ ChangeGoalConfigAndVel c d # cs3) s0
                  = Inr s"
    and nu: "no_update cs2" "no_update cs3"
  shows "\<not> removals_committed solver s"
proof -
  from run obtain s1 where
    "run solver (ChangeGoalConfigAndVel a b # cs2 @ ChangeGoalConfigAndVel c d # cs3) s1 = Inr s"
    by (auto simp: run_append)
  from second_goal_change_in_flight [OF this nu] show ?thesis .
qed

subsection \<open>The demonstration optimizer\<close>

lemma demo_optimizer_simps:
  "setting (demo_optimizer N k) = demo_setting N k"
  "arm (demo_optimizer N k) = ''arm''"
  "sdf (demo_optimizer N k) = ''sdf''"
  "isam (demo_optimizer N k) = ([], Map.empty)"
  "inc_graph (demo_optimizer N k) = []"
  "init_values (demo_optimizer N k) = Map.empty"
  "removed_factor_index (demo_optimizer N k) = []"
  "opt_values (demo_optimizer N k) = Map.empty"
  "goal_conf_factor_idx (demo_optimizer N k) = 0"
  "goal_vel_factor_idx (demo_optimizer N k) = 0"
  by (simp_all add: demo_optimizer_def new_ISAM2TrajOptimizer_def)

lemma demo_setting_simps:
  "total_step (demo_setting N k) = N"
  "total_time (demo_setting N k) = 10"
  "obs_check_inter (demo_setting N k) = k"
  "conf_prior_model (demo_setting N k) = ''conf_prior''"
  "vel_prior_model (demo_setting N k) = ''vel_prior''"
  "Qc_model (demo_setting N k) = ''Qc''"
  "cost_sigma (demo_setting N k) = 1"
  "epsilon (demo_setting N k) = 1"
  by (simp_all add: demo_setting_def)

lemma demo_update:
  "update demo_solver s =
     Inr (s\<lparr>isam := (fold remove_slot (removed_factor_index s) (fst (isam s) @ map Some (inc_graph s)),
                       snd (isam s) ++ init_values s),
            opt_values := snd (isam s) ++ init_values s,
            init_values := Map.empty, inc_graph := [], removed_factor_index := []\<rparr>)"
  by (simp add: update_def demo_solver_def slot_store_solver_def slot_store_update_def Let_def)

lemma demo_built_eq:
  "demo_built N k =
     (demo_optimizer N k)
       \<lparr>inc_graph := emitted [0, 0] [0, 0] [10, 0] [0, 0] (demo_optimizer N k),
        goal_conf_factor_idx := (if 0 < N then goal_position (demo_setting N k) else 0),
        goal_vel_factor_idx := (if 0 < N then goal_position (demo_setting N k) + 1 else 0)\<rparr>"
  by (simp add: demo_built_def initFactorGraph_closed demo_optimizer_simps demo_setting_simps)

lemma length_remove_slot:
  "length (remove_slot r slots) = length slots"
  by (simp add: remove_slot_def)

lemma length_fold_remove_slot:
  "length (fold remove_slot rs slots) = length slots"
  by (induction rs arbitrary: slots) (simp_all add: length_remove_slot)

lemma demo_solver_size:
  "getFactorsUnsafe_size demo_solver st = length (fst st)"
  by (simp add: demo_solver_def slot_store_solver_def)

lemma demo_solver_appends:
  "appends_new_factors demo_solver"
  by (auto simp: appends_new_factors_def demo_solver_def slot_store_solver_def
      slot_store_update_def length_fold_remove_slot)

lemma demo_after_two_goal_changes:
  "\<exists>s. demo_after [Update, ChangeGoalConfigAndVel [12, 0] [0, 0], ChangeGoalConfigAndVel [13, 0] [0, 0]] 1 0
         = Inr s
       \<and> removed_factor_index s = [3, 4, 7, 8]
       \<and> getFactorsUnsafe_size demo_solver (isam s) = 7
       \<and> length (inc_graph s) = 4"
  by (simp add: demo_after_def demo_update changeGoalConfigAndVel_eq demo_built_eq
      demo_optimizer_simps demo_setting_simps goal_position_def length_emitted
      length_fold_remove_slot length_remove_slot demo_solver_size)

lemma demo_after_update_goal_change:
  "\<exists>s. demo_after [Update, ChangeGoalConfigAndVel [12, 0] [0, 0]] 1 0 = Inr s
       \<and> removed_factor_index s = [3, 4]
       \<and> getFactorsUnsafe_size demo_solver (isam s) = 7"
  by (simp add: demo_after_def demo_update changeGoalConfigAndVel_eq demo_built_eq
      demo_optimizer_simps demo_setting_simps goal_position_def length_emitted
      length_fold_remove_slot length_remove_slot demo_solver_size)

lemma demo_after_goal_change:
  "\<exists>s. demo_after [ChangeGoalConfigAndVel [12, 0] [0, 0]] 1 0 = Inr s
       \<and> removed_factor_index s = [3, 4]
       \<and> getFactorsUnsafe_size demo_solver (isam s) = 0"
  by (simp add: demo_after_def changeGoalConfigAndVel_eq demo_built_eq
      demo_optimizer_simps demo_setting_simps goal_position_def demo_solver_size)

section \<open>The claims\<close>

subsection \<open>Goal changes\<close>

text \<open>
  Claim C1. In \<^verbatim>\<open>changeGoalConfigAndVel\<close>, right after the new goal pose factor is added,
  the cached goal pose index is overwritten with the size of the solver's committed store
  plus the current length of the pending buffer minus 1, and the same is done for the goal
  velocity factor after it is added. Equivalently, each cached index is the committed size
  plus the position of that factor in the pending buffer: the pose factor stands at position
  \<open>length (inc_graph s)\<close> of the new buffer and the velocity factor right behind it. The call
  leaves the solver object as it is, so the committed size is the same before and after.
\<close>

theorem changeGoal_caches_future_indices:
  "(let pose_prior = PriorFactorPose (Symbol CHR ''x'' (total_step (setting s))) goal_conf
                       (conf_prior_model (setting s));
        vel_prior = PriorFactorVelocity (Symbol CHR ''v'' (total_step (setting s))) goal_vel
                       (vel_prior_model (setting s));
        committed = getFactorsUnsafe_size solver (isam s);
        s' = changeGoalConfigAndVel solver goal_conf goal_vel s
    in goal_conf_factor_idx s' = committed + length (inc_graph s @ [pose_prior]) - 1
     \<and> goal_vel_factor_idx s' = committed + length (inc_graph s @ [pose_prior, vel_prior]) - 1
     \<and> inc_graph s' = inc_graph s @ [pose_prior, vel_prior]
     \<and> isam s' = isam s
     \<and> goal_conf_factor_idx s' = committed + length (inc_graph s)
     \<and> inc_graph s' ! length (inc_graph s) = pose_prior
     \<and> goal_vel_factor_idx s' = committed + (length (inc_graph s) + 1)
     \<and> inc_graph s' ! (length (inc_graph s) + 1) = vel_prior)"
  by (simp add: changeGoalConfigAndVel_eq Let_def nth_append)

text \<open>
  Claim C10. \<^verbatim>\<open>changeGoalConfigAndVel\<close> changes only the pending buffer, the removal list and
  the two cached goal indices: the pending initial values and the cached estimate are what
  they were, and the state returned is the state given with (at most) those four members
  replaced.
\<close>

theorem changeGoal_frame:
  "(let s' = changeGoalConfigAndVel solver goal_conf goal_vel s
    in init_values s' = init_values s
     \<and> opt_values s' = opt_values s
     \<and> s' = s\<lparr>inc_graph := inc_graph s',
               removed_factor_index := removed_factor_index s',
               goal_conf_factor_idx := goal_conf_factor_idx s',
               goal_vel_factor_idx := goal_vel_factor_idx s'\<rparr>)"
  by (simp add: changeGoalConfigAndVel_eq Let_def)

subsection \<open>The update cycle\<close>



subsection \<open>Pinning a state\<close>

text \<open>
  Claim C9. For every step index in range, \<^verbatim>\<open>fixConfigAndVel\<close> appends exactly two equality
  factors to the pending buffer, one on the pose key and one on the velocity key of the step,
  with the configured prior noise models, and changes nothing else: the removal list, the
  cached goal indices, the pending initial values and the estimate are what they were, and so
  is every other member.
\<close>

theorem fixConfigAndVel_in_range:
  "state_idx \<le> total_step (setting s) \<Longrightarrow>
   (let s' = fixConfigAndVel state_idx conf_fix vel_fix s
    in inc_graph s' = inc_graph s
         @ [PriorFactorPose (Symbol CHR ''x'' state_idx) conf_fix (conf_prior_model (setting s)),
            PriorFactorVelocity (Symbol CHR ''v'' state_idx) vel_fix (vel_prior_model (setting s))]
     \<and> removed_factor_index s' = removed_factor_index s
     \<and> goal_conf_factor_idx s' = goal_conf_factor_idx s
     \<and> goal_vel_factor_idx s' = goal_vel_factor_idx s
     \<and> init_values s' = init_values s
     \<and> opt_values s' = opt_values s
     \<and> s' = s\<lparr>inc_graph := inc_graph s'\<rparr>)"
  by (simp add: fixConfigAndVel_eq Let_def)

theorem fixConfigAndVel_in_range_witness:
  "3 \<le> total_step (setting (demo_optimizer 5 1))
   \<and> inc_graph (fixConfigAndVel 3 [1, 1] [0, 0] (demo_optimizer 5 1))
     = [PriorFactorPose (Symbol CHR ''x'' 3) [1, 1] ''conf_prior'',
        PriorFactorVelocity (Symbol CHR ''v'' 3) [0, 0] ''vel_prior'']
   \<and> removed_factor_index (fixConfigAndVel 3 [1, 1] [0, 0] (demo_optimizer 5 1)) = []
   \<and> goal_conf_factor_idx (fixConfigAndVel 3 [1, 1] [0, 0] (demo_optimizer 5 1)) = 0"
proof -
  have h: "3 \<le> total_step (setting (demo_optimizer 5 1))"
    by (simp add: demo_optimizer_simps demo_setting_simps)
  from fixConfigAndVel_in_range [OF h, of "[1, 1]" "[0, 0]"] h show ?thesis
    by (simp add: Let_def demo_optimizer_simps demo_setting_simps)
qed

text \<open>
  Claim C6, as amended. The source has no check of the step index: for a step index beyond
  the configured step count \<^verbatim>\<open>fixConfigAndVel\<close> signals nothing and does what it does in
  range. It appends the two equality factors on the keys of that step to the pending buffer
  and leaves every other member as it was.
\<close>

theorem fixConfigAndVel_out_of_range:
  "total_step (setting s) < state_idx \<Longrightarrow>
     fixConfigAndVel state_idx conf_fix vel_fix s =
       s\<lparr>inc_graph := inc_graph s
           @ [PriorFactorPose (Symbol CHR ''x'' state_idx) conf_fix (conf_prior_model (setting s)),
              PriorFactorVelocity (Symbol CHR ''v'' state_idx) vel_fix (vel_prior_model (setting s))]\<rparr>"
  by (simp add: fixConfigAndVel_eq)

theorem fixConfigAndVel_out_of_range_witness:
  "total_step (setting (demo_optimizer 5 1)) < 7
   \<and> fixConfigAndVel 7 [1, 1] [0, 0] (demo_optimizer 5 1)
     = (demo_optimizer 5 1)\<lparr>inc_graph :=
          [PriorFactorPose (Symbol CHR ''x'' 7) [1, 1] ''conf_prior'',
           PriorFactorVelocity (Symbol CHR ''v'' 7) [0, 0] ''vel_prior'']\<rparr>"
proof -
  have h: "total_step (setting (demo_optimizer 5 1)) < 7"
    by (simp add: demo_optimizer_simps demo_setting_simps)
  from fixConfigAndVel_out_of_range [OF h, of "[1, 1]" "[0, 0]"] h show ?thesis
    by (simp add: demo_optimizer_simps demo_setting_simps)
qed

text \<open>
  The claim as stated fails: with 5 steps configured, pinning step 7 returns normally and the
  pending buffer, empty before, holds two factors on the keys of step 7.
\<close>

theorem fixConfigAndVel_out_of_range_counterexample:
  "inc_graph (demo_optimizer 5 1) = []
   \<and> inc_graph (fixConfigAndVel 7 [1, 1] [0, 0] (demo_optimizer 5 1))
     = [PriorFactorPose (Symbol CHR ''x'' 7) [1, 1] ''conf_prior'',
        PriorFactorVelocity (Symbol CHR ''v'' 7) [0, 0] ''vel_prior'']"
  by (simp add: fixConfigAndVel_eq demo_optimizer_simps demo_setting_simps)

subsection \<open>The initial build\<close>

text \<open>
  Claim C4, as amended. For every setting with at least one step, \<^verbatim>\<open>initFactorGraph\<close> appends
  to the pending buffer exactly 2 start priors (pose and velocity of step 0), 2 goal priors
  (pose and velocity of step \<open>N\<close>), \<open>N + 1\<close> obstacle factors, \<open>N\<close> smoothness factors and
  \<open>N * obs_check_inter\<close> interpolated obstacle factors, and nothing else: in total
  \<open>2 + 2 + (N + 1) + N + N * obs_check_inter\<close> factors, which is 3 more than the count
  \<^verbatim>\<open>2 + (N) + N*(1) + N*obs_check_inter\<close> that the specification states.
\<close>

theorem initFactorGraph_counts:
  "1 \<le> total_step (setting s) \<Longrightarrow>
   (let N = total_step (setting s);
        k = obs_check_inter (setting s);
        E = emitted start_conf start_vel goal_conf goal_vel s
    in inc_graph (initFactorGraph start_conf start_vel goal_conf goal_vel s) = inc_graph s @ E
     \<and> filter (is_prior_at 0) E
         = [PriorFactorPose (Symbol CHR ''x'' 0) start_conf (conf_prior_model (setting s)),
            PriorFactorVelocity (Symbol CHR ''v'' 0) start_vel (vel_prior_model (setting s))]
     \<and> filter (is_prior_at N) E
         = [PriorFactorPose (Symbol CHR ''x'' N) goal_conf (conf_prior_model (setting s)),
            PriorFactorVelocity (Symbol CHR ''v'' N) goal_vel (vel_prior_model (setting s))]
     \<and> length (filter is_obstacle E) = N + 1
     \<and> length (filter is_smoothness E) = N
     \<and> length (filter is_interpolated E) = N * k
     \<and> length E = 2 + 2 + (N + 1) + N + N * k
     \<and> length E = spec_constraint_count N k + 3)"
proof -
  assume N: "1 \<le> total_step (setting s)"
  have "inc_graph (initFactorGraph start_conf start_vel goal_conf goal_vel s)
          = inc_graph s @ emitted start_conf start_vel goal_conf goal_vel s"
    by (simp add: initFactorGraph_closed)
  moreover from N have "length (emitted start_conf start_vel goal_conf goal_vel s)
      = 5 + 2 * total_step (setting s) + total_step (setting s) * obs_check_inter (setting s)"
    by (simp add: length_emitted)
  ultimately show ?thesis
    using N
    by (simp add: Let_def emitted_eq filter_prior_steps step_priors_def count_obstacle_steps
        count_smoothness_steps count_interpolated_steps spec_constraint_count_def)
qed

theorem initFactorGraph_counts_witness:
  "1 \<le> total_step (setting (demo_optimizer 5 1))
   \<and> inc_graph (demo_built 5 1) = emitted [0, 0] [0, 0] [10, 0] [0, 0] (demo_optimizer 5 1)
   \<and> filter (is_prior_at 0) (inc_graph (demo_built 5 1))
       = [PriorFactorPose (Symbol CHR ''x'' 0) [0, 0] ''conf_prior'',
          PriorFactorVelocity (Symbol CHR ''v'' 0) [0, 0] ''vel_prior'']
   \<and> filter (is_prior_at 5) (inc_graph (demo_built 5 1))
       = [PriorFactorPose (Symbol CHR ''x'' 5) [10, 0] ''conf_prior'',
          PriorFactorVelocity (Symbol CHR ''v'' 5) [0, 0] ''vel_prior'']
   \<and> length (filter is_obstacle (inc_graph (demo_built 5 1))) = 6
   \<and> length (filter is_smoothness (inc_graph (demo_built 5 1))) = 5
   \<and> length (filter is_interpolated (inc_graph (demo_built 5 1))) = 5
   \<and> length (inc_graph (demo_built 5 1)) = 20"
proof -
  have h: "1 \<le> total_step (setting (demo_optimizer 5 1))"
    by (simp add: demo_optimizer_simps demo_setting_simps)
  from initFactorGraph_counts [OF h, of "[0, 0]" "[0, 0]" "[10, 0]" "[0, 0]"] h show ?thesis
    by (simp add: Let_def demo_built_def demo_optimizer_simps demo_setting_simps)
qed

text \<open>
  The claim as stated fails in its last part: for 5 steps and one interpolated check per step
  the build emits 20 factors, the stated count is 17.
\<close>

theorem initFactorGraph_counts_counterexample:
  "length (inc_graph (demo_built 5 1)) = 20 \<and> spec_constraint_count 5 1 = 17"
  by (simp add: demo_built_eq length_emitted demo_optimizer_simps demo_setting_simps
      spec_constraint_count_def)

text \<open>
  Claim C7, as amended. The source has no check of the setting: with a step count of 0
  \<^verbatim>\<open>initFactorGraph\<close> returns normally, having appended the two start priors and the obstacle
  factor of step 0 to the pending buffer. No goal prior is added, and the cached goal indices
  and every other member are left as they were.
\<close>

theorem initFactorGraph_zero_steps:
  "total_step (setting s) = 0 \<Longrightarrow>
     initFactorGraph start_conf start_vel goal_conf goal_vel s =
       s\<lparr>inc_graph := inc_graph s
           @ [PriorFactorPose (Symbol CHR ''x'' 0) start_conf (conf_prior_model (setting s)),
              PriorFactorVelocity (Symbol CHR ''v'' 0) start_vel (vel_prior_model (setting s)),
              OBS_FACTOR (Symbol CHR ''x'' 0) (arm s) (sdf s) (cost_sigma (setting s))
                (epsilon (setting s))]\<rparr>"
  by (simp add: initFactorGraph_closed emitted_zero_steps)

theorem initFactorGraph_zero_steps_witness:
  "total_step (setting (demo_optimizer 0 1)) = 0
   \<and> demo_built 0 1 =
       (demo_optimizer 0 1)\<lparr>inc_graph :=
          [PriorFactorPose (Symbol CHR ''x'' 0) [0, 0] ''conf_prior'',
           PriorFactorVelocity (Symbol CHR ''v'' 0) [0, 0] ''vel_prior'',
           OBS_FACTOR (Symbol CHR ''x'' 0) ''arm'' ''sdf'' 1 1]\<rparr>"
proof -
  have h: "total_step (setting (demo_optimizer 0 1)) = 0"
    by (simp add: demo_optimizer_simps demo_setting_simps)
  from initFactorGraph_zero_steps [OF h, of "[0, 0]" "[0, 0]" "[10, 0]" "[0, 0]"] h show ?thesis
    by (simp add: demo_built_def demo_optimizer_simps demo_setting_simps)
qed

text \<open>
  The claim as stated fails: with a step count of 0 the build is not rejected, and the pending
  buffer, empty before the call, holds three factors after it.
\<close>

theorem initFactorGraph_zero_steps_counterexample:
  "total_step (setting (demo_optimizer 0 1)) = 0
   \<and> inc_graph (demo_optimizer 0 1) = []
   \<and> length (inc_graph (demo_built 0 1)) = 3"
  by (simp add: demo_built_eq emitted_zero_steps demo_optimizer_simps demo_setting_simps)

text \<open>
  Claim C8. In the initial build, that is \<^verbatim>\<open>initFactorGraph\<close> called with an empty pending
  buffer and at least one step, the cached goal pose index and goal velocity index are exactly
  the positions of the goal pose and goal velocity equality factors in the emitted sequence:
  the two cached indices are, in this order, the only positions of the sequence that hold an
  equality factor on a key of step \<open>N\<close>, the first holds the goal pose factor and the second
  the goal velocity factor.
\<close>

theorem initFactorGraph_caches_goal_positions:
  "1 \<le> total_step (setting s) \<Longrightarrow> inc_graph s = [] \<Longrightarrow>
   (let s' = initFactorGraph start_conf start_vel goal_conf goal_vel s;
        N = total_step (setting s);
        E = emitted start_conf start_vel goal_conf goal_vel s
    in inc_graph s' = E
     \<and> positions (is_prior_at N) E = [goal_conf_factor_idx s', goal_vel_factor_idx s']
     \<and> E ! goal_conf_factor_idx s'
         = PriorFactorPose (Symbol CHR ''x'' N) goal_conf (conf_prior_model (setting s))
     \<and> E ! goal_vel_factor_idx s'
         = PriorFactorVelocity (Symbol CHR ''v'' N) goal_vel (vel_prior_model (setting s)))"
proof -
  assume N: "1 \<le> total_step (setting s)" and empty: "inc_graph s = []"
  from N have pos: "0 < total_step (setting s)"
    by simp
  from positions_goal_emitted [OF pos, of start_conf start_vel goal_conf goal_vel]
    nth_goal_emitted [OF pos, of start_conf start_vel goal_conf goal_vel] pos
  show ?thesis
    by (simp add: Let_def initFactorGraph_closed empty)
qed

theorem initFactorGraph_caches_goal_positions_witness:
  "1 \<le> total_step (setting (demo_optimizer 2 1))
   \<and> inc_graph (demo_optimizer 2 1) = []
   \<and> goal_conf_factor_idx (demo_built 2 1) = 6
   \<and> goal_vel_factor_idx (demo_built 2 1) = 7
   \<and> positions (is_prior_at 2) (inc_graph (demo_built 2 1)) = [6, 7]
   \<and> inc_graph (demo_built 2 1) ! 6 = PriorFactorPose (Symbol CHR ''x'' 2) [10, 0] ''conf_prior''
   \<and> inc_graph (demo_built 2 1) ! 7 = PriorFactorVelocity (Symbol CHR ''v'' 2) [0, 0] ''vel_prior''"
proof -
  have h: "1 \<le> total_step (setting (demo_optimizer 2 1))" and e: "inc_graph (demo_optimizer 2 1) = []"
    by (simp_all add: demo_optimizer_simps demo_setting_simps)
  have idx: "goal_conf_factor_idx (demo_built 2 1) = 6" "goal_vel_factor_idx (demo_built 2 1) = 7"
    by (simp_all add: demo_built_eq goal_position_def demo_setting_simps)
  from initFactorGraph_caches_goal_positions [OF h e, of "[0, 0]" "[0, 0]" "[10, 0]" "[0, 0]"]
  show ?thesis
    using h e idx
    by (simp add: Let_def demo_built_def [symmetric] demo_optimizer_simps demo_setting_simps)
qed

subsection \<open>Goal changes between updates\<close>

text \<open>
  Claim C2. For every sequence of calls of \<^verbatim>\<open>changeGoalConfigAndVel\<close> interleaved in any way
  with calls of \<^verbatim>\<open>update\<close> (and of \<^verbatim>\<open>initValues\<close> and \<^verbatim>\<open>fixConfigAndVel\<close>) after an
  initial build, every goal change appends to the removal list exactly two indices, first the
  cached goal pose index and then the cached goal velocity index, and these are the indices
  that the goal change before it left in the cache, or the initial build for the first goal
  change. The second part is the single call: the removal list after it is the list before
  it followed by the two indices cached before it.
\<close>

theorem goal_change_pushes_cached_indices:
  "(let s0 = initFactorGraph start_conf start_vel goal_conf goal_vel s
    in pushes_cached [goal_conf_factor_idx s0, goal_vel_factor_idx s0] (goal_changes solver cs s0))
   \<and> removed_factor_index (changeGoalConfigAndVel solver new_conf new_vel s)
       = removed_factor_index s @ [goal_conf_factor_idx s, goal_vel_factor_idx s]"
  by (simp add: Let_def goal_changes_push_cached changeGoalConfigAndVel_eq)

text \<open>
  A run with three goal changes, two of them between the same pair of updates: the build for
  one step caches 3 and 4, the goal changes push what was cached and cache 7 and 8, then 9
  and 10, then 11 and 12.
\<close>

theorem goal_change_pushes_cached_indices_witness:
  "goal_changes demo_solver
     [Update, ChangeGoalConfigAndVel [12, 0] [0, 0], ChangeGoalConfigAndVel [13, 0] [0, 0], Update,
      ChangeGoalConfigAndVel [14, 0] [0, 0]]
     (demo_built 1 0)
     = [([], [3, 4], [7, 8]), ([3, 4], [3, 4, 7, 8], [9, 10]), ([], [9, 10], [11, 12])]
   \<and> goal_conf_factor_idx (demo_built 1 0) = 3 \<and> goal_vel_factor_idx (demo_built 1 0) = 4
   \<and> pushes_cached [3, 4] [([], [3, 4], [7, 8]), ([3, 4], [3, 4, 7, 8], [9, 10]), ([], [9, 10], [11, 12])]"
proof -
  have log: "goal_changes demo_solver
     [Update, ChangeGoalConfigAndVel [12, 0] [0, 0], ChangeGoalConfigAndVel [13, 0] [0, 0], Update,
      ChangeGoalConfigAndVel [14, 0] [0, 0]]
     (demo_built 1 0)
     = [([], [3, 4], [7, 8]), ([3, 4], [3, 4, 7, 8], [9, 10]), ([], [9, 10], [11, 12])]"
    by (simp add: demo_update changeGoalConfigAndVel_eq demo_built_eq
      demo_optimizer_simps demo_setting_simps goal_position_def length_emitted
      length_fold_remove_slot length_remove_slot demo_solver_size)
  have idx: "goal_conf_factor_idx (demo_built 1 0) = 3" "goal_vel_factor_idx (demo_built 1 0) = 4"
    by (simp_all add: demo_built_eq goal_position_def demo_setting_simps)
  from goal_change_pushes_cached_indices
    [of "[0, 0]" "[0, 0]" "[10, 0]" "[0, 0]" "demo_optimizer 1 0" demo_solver
        "[Update, ChangeGoalConfigAndVel [12, 0] [0, 0], ChangeGoalConfigAndVel [13, 0] [0, 0], Update,
          ChangeGoalConfigAndVel [14, 0] [0, 0]]"]
  have "pushes_cached [3, 4] [([], [3, 4], [7, 8]), ([3, 4], [3, 4, 7, 8], [9, 10]), ([], [9, 10], [11, 12])]"
    by (simp only: Let_def demo_built_def [symmetric] log idx)
  with log idx show ?thesis
    by simp
qed

text \<open>
  Claim C3, as amended. Let the solver put the new factors of each update behind its store,
  one slot each, and free no slot (\<open>appends_new_factors\<close>), and let \<open>s0\<close> be a freshly
  constructed optimizer after the initial build. Then, for the states reached from \<open>s0\<close> by
  any sequence of calls, that is at every moment an \<^verbatim>\<open>update\<close> can execute:
  \<^item> every index in the removal list is below the size of the committed store plus the
    length of the pending buffer: it names a factor committed by an earlier update or a
    factor of the pending batch that this update submits;
  \<^item> when an update has been executed and at most one goal change was made since the last
    update, every index in the removal list names a factor committed by an earlier update;
  \<^item> when two goal changes were made with no update between them or after them, the
    removal list holds an index that names no committed factor;
  \<^item> when the store of the solver is empty at construction and a goal change was made with
    no update before or after it, the removal list holds an index that names no committed
    factor.
\<close>

theorem removals_name_committed_or_pending_factors:
  assumes solver: "appends_new_factors solver"
    and s0: "s0 = initFactorGraph start_conf start_vel goal_conf goal_vel
                    (new_ISAM2TrajOptimizer r sd st isam0)"
  shows "(\<forall>cs s. run solver cs s0 = Inr s \<longrightarrow> removals_committed_or_pending solver s)
       \<and> (\<forall>cs1 cs2 s.
            run solver (cs1 @ Update # cs2) s0 = Inr s \<and> no_update cs2 \<and> goal_change_count cs2 \<le> 1
            \<longrightarrow> removals_committed solver s)
       \<and> (\<forall>cs1 cs2 cs3 a b c d s.
            run solver (cs1 @ ChangeGoalConfigAndVel a b # cs2 @ ChangeGoalConfigAndVel c d # cs3) s0
              = Inr s
            \<and> no_update cs2 \<and> no_update cs3
            \<longrightarrow> \<not> removals_committed solver s)
       \<and> (\<forall>cs1 cs2 a b s.
            getFactorsUnsafe_size solver isam0 = 0
            \<and> run solver (cs1 @ ChangeGoalConfigAndVel a b # cs2) s0 = Inr s
            \<and> no_update cs1 \<and> no_update cs2
            \<longrightarrow> \<not> removals_committed solver s)"
proof -
  have built: "cache_in_range solver s0" "removals_committed_or_pending solver s0"
    using built_in_range [of "new_ISAM2TrajOptimizer r sd st isam0" solver
        start_conf start_vel goal_conf goal_vel]
    by (simp_all add: s0 new_ISAM2TrajOptimizer_simps)
  have isam0: "isam s0 = isam0"
    by (simp add: s0 initFactorGraph_closed new_ISAM2TrajOptimizer_simps)
  have "run solver cs s0 = Inr s \<Longrightarrow> removals_committed_or_pending solver s" for cs s
    using run_in_range [OF solver built] by blast
  moreover have "run solver (cs1 @ Update # cs2) s0 = Inr s \<Longrightarrow> no_update cs2 \<Longrightarrow>
      goal_change_count cs2 \<le> 1 \<Longrightarrow> removals_committed solver s" for cs1 cs2 s
    by (rule update_then_one_goal_change_committed [OF solver built])
  moreover have
    "run solver (cs1 @ ChangeGoalConfigAndVel a b # cs2 @ ChangeGoalConfigAndVel c d # cs3) s0 = Inr s
       \<Longrightarrow> no_update cs2 \<Longrightarrow> no_update cs3 \<Longrightarrow> \<not> removals_committed solver s"
    for cs1 cs2 cs3 a b c d s
    by (rule two_goal_changes_in_flight)
  moreover have "getFactorsUnsafe_size solver isam0 = 0 \<Longrightarrow>
      run solver (cs1 @ ChangeGoalConfigAndVel a b # cs2) s0 = Inr s \<Longrightarrow>
      no_update cs1 \<Longrightarrow> no_update cs2 \<Longrightarrow> \<not> removals_committed solver s" for cs1 cs2 a b s
    using goal_change_on_empty_store_in_flight [of solver s0 cs1 a b cs2 s]
    by (simp add: isam0)
  ultimately show ?thesis
    by blast
qed

text \<open>
  On the optimizer built for one step: after an update and two goal changes the removal list
  is 3, 4, 7, 8 against a store of 7 factors; after an update and one goal change it is 3, 4
  against a store of 7; after a goal change alone it is 3, 4 against an empty store.
\<close>

theorem removals_name_committed_or_pending_factors_witness:
  "appends_new_factors demo_solver
   \<and> \<not> isl (demo_after [Update, ChangeGoalConfigAndVel [12, 0] [0, 0],
                          ChangeGoalConfigAndVel [13, 0] [0, 0]] 1 0)
   \<and> removals_committed_or_pending demo_solver
        (projr (demo_after [Update, ChangeGoalConfigAndVel [12, 0] [0, 0],
                            ChangeGoalConfigAndVel [13, 0] [0, 0]] 1 0))
   \<and> \<not> removals_committed demo_solver
        (projr (demo_after [Update, ChangeGoalConfigAndVel [12, 0] [0, 0],
                            ChangeGoalConfigAndVel [13, 0] [0, 0]] 1 0))
   \<and> removed_factor_index
        (projr (demo_after [Update, ChangeGoalConfigAndVel [12, 0] [0, 0],
                            ChangeGoalConfigAndVel [13, 0] [0, 0]] 1 0)) = [3, 4, 7, 8]
   \<and> \<not> isl (demo_after [Update, ChangeGoalConfigAndVel [12, 0] [0, 0]] 1 0)
   \<and> removals_committed demo_solver
        (projr (demo_after [Update, ChangeGoalConfigAndVel [12, 0] [0, 0]] 1 0))
   \<and> removed_factor_index
        (projr (demo_after [Update, ChangeGoalConfigAndVel [12, 0] [0, 0]] 1 0)) = [3, 4]
   \<and> getFactorsUnsafe_size demo_solver ([], Map.empty) = 0
   \<and> \<not> isl (demo_after [ChangeGoalConfigAndVel [12, 0] [0, 0]] 1 0)
   \<and> \<not> removals_committed demo_solver
        (projr (demo_after [ChangeGoalConfigAndVel [12, 0] [0, 0]] 1 0))"
proof -
  let ?g1 = "ChangeGoalConfigAndVel [12, 0] [0, 0] :: (real list, real list) call"
  let ?g2 = "ChangeGoalConfigAndVel [13, 0] [0, 0] :: (real list, real list) call"
  let ?s0 = "initFactorGraph [0, 0] [0, 0] [10, 0] [0, 0]
               (new_ISAM2TrajOptimizer ''arm'' ''sdf'' (demo_setting 1 0) ([], Map.empty))
             :: demo_optimizer"
  have after: "demo_after cs 1 0 = run demo_solver cs ?s0" for cs
    by (simp only: demo_after_def demo_built_def demo_optimizer_def)
  note main = removals_name_committed_or_pending_factors [OF demo_solver_appends refl,
      of "[0, 0]" "[0, 0]" "[10, 0]" "[0, 0]" "''arm''" "''sdf''" "demo_setting 1 0" "([], Map.empty)"]
  from demo_after_two_goal_changes obtain sA where
    A: "demo_after [Update, ?g1, ?g2] 1 0 = Inr sA" and rA: "removed_factor_index sA = [3, 4, 7, 8]"
    by blast
  from demo_after_update_goal_change obtain sB where
    B: "demo_after [Update, ?g1] 1 0 = Inr sB" and rB: "removed_factor_index sB = [3, 4]"
    by blast
  from demo_after_goal_change obtain sC where
    C: "demo_after [?g1] 1 0 = Inr sC"
    by blast
  have empty: "getFactorsUnsafe_size demo_solver ([], Map.empty) = 0"
    by (simp add: demo_solver_size)
  have 1: "removals_committed_or_pending demo_solver sA"
  proof -
    have "run demo_solver [Update, ?g1, ?g2] ?s0 = Inr sA"
      using A by (simp only: after)
    then show ?thesis
      using main by blast
  qed
  have 2: "removals_committed demo_solver sB"
  proof -
    have "run demo_solver ([] @ Update # [?g1]) ?s0 = Inr sB"
      using B by (simp only: after append_Nil)
    moreover have "no_update [?g1]" "goal_change_count [?g1] \<le> 1"
      by simp_all
    ultimately show ?thesis
      using main by blast
  qed
  have 3: "\<not> removals_committed demo_solver sA"
  proof -
    have "run demo_solver ([Update] @ ?g1 # [] @ ?g2 # []) ?s0 = Inr sA"
      using A by (simp only: after append_Nil append_Cons)
    moreover have "no_update ([] :: (real list, real list) call list)"
      by simp
    ultimately show ?thesis
      using main by blast
  qed
  have 4: "\<not> removals_committed demo_solver sC"
  proof -
    have "run demo_solver ([] @ ?g1 # []) ?s0 = Inr sC"
      using C by (simp only: after append_Nil)
    moreover have "no_update ([] :: (real list, real list) call list)"
      by simp
    ultimately show ?thesis
      using main empty by blast
  qed
  show ?thesis
    unfolding A B C using demo_solver_appends 1 2 3 4 rA rB empty by simp
qed

text \<open>
  The claim as stated fails: after the build for one step, an update and two goal changes,
  the committed store holds 7 factors and the removal list is 3, 4, 7, 8. The indices 7 and 8
  name the goal factors of the first goal change, which are still in the pending buffer.
\<close>

theorem removals_committed_counterexample:
  "\<not> isl (demo_after [Update, ChangeGoalConfigAndVel [12, 0] [0, 0],
                        ChangeGoalConfigAndVel [13, 0] [0, 0]] 1 0)
   \<and> removed_factor_index
        (projr (demo_after [Update, ChangeGoalConfigAndVel [12, 0] [0, 0],
                            ChangeGoalConfigAndVel [13, 0] [0, 0]] 1 0)) = [3, 4, 7, 8]
   \<and> getFactorsUnsafe_size demo_solver
        (isam (projr (demo_after [Update, ChangeGoalConfigAndVel [12, 0] [0, 0],
                                  ChangeGoalConfigAndVel [13, 0] [0, 0]] 1 0))) = 7
   \<and> \<not> removals_committed demo_solver
        (projr (demo_after [Update, ChangeGoalConfigAndVel [12, 0] [0, 0],
                            ChangeGoalConfigAndVel [13, 0] [0, 0]] 1 0))"
proof -
  from demo_after_two_goal_changes obtain s where
    s: "demo_after [Update, ChangeGoalConfigAndVel [12, 0] [0, 0],
                    ChangeGoalConfigAndVel [13, 0] [0, 0]] 1 0 = Inr s"
    and facts: "removed_factor_index s = [3, 4, 7, 8]"
      "getFactorsUnsafe_size demo_solver (isam s) = 7"
    by blast
  show ?thesis
    unfolding s using facts by (simp add: removals_committed_def)
qed

end
